theory Spec2Isabelle
  imports Main "HOL-Library.Word" "HOL-Library.Multiset"
begin

section \<open>Go strings and formatting\<close>

text \<open>
  A Go string is a byte sequence; it is modelled as a \<open>string\<close> (a list of \<open>char\<close>).
  The helpers below follow the Go standard library: \<open>strings.HasPrefix\<close>,
  \<open>strings.HasSuffix\<close>, \<open>strings.TrimPrefix\<close>, \<open>strings.Join\<close> and the \<open>%d\<close> verb.
\<close>

definition HasPrefix :: "string \<Rightarrow> string \<Rightarrow> bool" where
  "HasPrefix s pre = (length pre \<le> length s \<and> take (length pre) s = pre)"

definition HasSuffix :: "string \<Rightarrow> string \<Rightarrow> bool" where
  "HasSuffix s suf = (length suf \<le> length s \<and> drop (length s - length suf) s = suf)"

definition TrimPrefix :: "string \<Rightarrow> string \<Rightarrow> string" where
  "TrimPrefix s pre = (if HasPrefix s pre then drop (length pre) s else s)"

fun Join :: "string list \<Rightarrow> string \<Rightarrow> string" where
  "Join [] sep = []"
| "Join [x] sep = x"
| "Join (x # y # ys) sep = x @ sep @ Join (y # ys) sep"

definition digit_char :: "nat \<Rightarrow> char" where
  "digit_char n = ''0123456789'' ! (n mod 10)"

function show_nat :: "nat \<Rightarrow> string" where
  "show_nat n = (if n < 10 then [digit_char n] else show_nat (n div 10) @ [digit_char n])"
  by pat_completeness auto
termination
  by (relation "measure id") auto

declare show_nat.simps [simp del]

definition show_int :: "int \<Rightarrow> string" where
  "show_int i = (if i < 0 then ''-'' @ show_nat (nat (- i)) else show_nat (nat i))"

definition sq :: string where
  "sq = [CHR 0x27]"

definition dq :: string where
  "dq = [CHR 0x22]"

definition tab :: string where
  "tab = [CHR 0x09]"

section \<open>Data model\<close>

text \<open>
  \<open>errors.New\<close>/\<open>errors.Errorf\<close> build an error from a message, \<open>errors.Annotate\<close> wraps
  one with a message, \<open>errors.Trace\<close> keeps the error and only records the call site, so it
  is the identity here. Dereferencing a nil pointer panics; the panic is an error value.
\<close>

datatype error = Err string | Annotate error string | NilDereference

text \<open>
  \<open>timodel.ActionType\<close>: the six action tags that \<open>GenDDLViaColumnsDiff\<close> tests for, and
  every other action code (none, add column, ...) under \<open>ActionOther\<close>.
\<close>

datatype ActionType =
    ActionCreateSchema
  | ActionDropSchema
  | ActionCreateTable
  | ActionDropTable
  | ActionTruncateTable
  | ActionRenameTables
  | ActionOther nat

text \<open>
  \<open>cloudstorage.TableCol\<close> and \<open>cloudstorage.TableDefinition\<close>, with the fields the code
  reads. \<open>Default\<close> is an \<open>interface{}\<close> that is nil or a value; the value is kept as the
  text that \<open>%v\<close> prints for it.
\<close>

record TableCol =
  Name :: string
  Tp :: string
  Default :: "string option"
  Precision :: string
  Scale :: string
  Nullable :: string
  IsPK :: string

record TableDefinition =
  Table :: string
  Schema :: string
  Type :: ActionType
  Columns :: "TableCol list"

text \<open>\<open>tidbsql.ColumnDiff\<close>: an action and the column before and after (either may be nil).\<close>

datatype ColumnAction = UNCHANGE | ADD_COLUMN | DROP_COLUMN | MODIFY_COLUMN | RENAME_COLUMN

record ColumnDiff =
  Action :: ColumnAction
  Before :: "TableCol option"
  After :: "TableCol option"

section \<open>Redshift DDL translation (pkg/redshiftsql/ddl.go)\<close>

text \<open>
  \<open>strconv.ParseFloat\<close> is the Go standard library's; the parameter \<open>pf\<close> says for which
  texts it returns no error.
\<close>

definition getDefaultString :: "(string \<Rightarrow> bool) \<Rightarrow> string \<Rightarrow> string" where
  "getDefaultString pf val = (if \<not> pf val then sq @ val @ sq else val)"

text \<open>
  \<open>GetRedshiftTypeString\<close> belongs to another file of the package; here it is the
  parameter \<open>ts\<close>.
\<close>

definition GetRedshiftColumnString ::
  "(string \<Rightarrow> bool) \<Rightarrow> (TableCol \<Rightarrow> error + string) \<Rightarrow> TableCol \<Rightarrow> error + string" where
  "GetRedshiftColumnString pf ts column =
     (case ts column of
        Inl e \<Rightarrow> Inl e
      | Inr typeStr \<Rightarrow>
          Inr (typeStr
               @ (if Nullable column = ''false'' then '' NOT NULL'' else '''')
               @ (case Default column of
                    Some d \<Rightarrow> '' DEFAULT '' @ getDefaultString pf d
                  | None \<Rightarrow> (if Nullable column = ''true'' then '' DEFAULT NULL'' else ''''))))"

text \<open>The body of the loop over the column diff: the statement of one entry, before the
  semicolon; the empty string when the entry yields none.\<close>

definition ddl_of_item ::
  "(string \<Rightarrow> bool) \<Rightarrow> (TableCol \<Rightarrow> error + string) \<Rightarrow> string \<Rightarrow> ColumnDiff \<Rightarrow> error + string" where
  "ddl_of_item pf ts tbl item =
     (case Action item of
        ADD_COLUMN \<Rightarrow>
          (case After item of
             None \<Rightarrow> Inl NilDereference
           | Some a \<Rightarrow>
               (case GetRedshiftColumnString pf ts a of
                  Inl e \<Rightarrow> Inl e
                | Inr colStr \<Rightarrow> Inr (''ALTER TABLE '' @ tbl @ '' ADD COLUMN '' @ colStr)))
      | DROP_COLUMN \<Rightarrow>
          (case Before item of
             None \<Rightarrow> Inl NilDereference
           | Some b \<Rightarrow> Inr (''ALTER TABLE '' @ tbl @ '' DROP COLUMN '' @ Name b))
      | MODIFY_COLUMN \<Rightarrow>
          Inl (Err ''Received modify column ddl, which is not supported by redshift yet'')
      | RENAME_COLUMN \<Rightarrow>
          (case Before item of
             None \<Rightarrow> Inl NilDereference
           | Some b \<Rightarrow>
               (case After item of
                  None \<Rightarrow> Inl NilDereference
                | Some a \<Rightarrow>
                    Inr (''ALTER TABLE '' @ tbl @ '' RENAME COLUMN '' @ Name b @ '' TO '' @ Name a)))
      | UNCHANGE \<Rightarrow> Inr '''')"

fun ddl_loop ::
  "(string \<Rightarrow> bool) \<Rightarrow> (TableCol \<Rightarrow> error + string) \<Rightarrow> string \<Rightarrow> ColumnDiff list \<Rightarrow>
   string list \<Rightarrow> error + string list" where
  "ddl_loop pf ts tbl [] ddls = Inr ddls"
| "ddl_loop pf ts tbl (item # rest) ddls =
     (case ddl_of_item pf ts tbl item of
        Inl e \<Rightarrow> Inl e
      | Inr ddl \<Rightarrow>
          (if ddl \<noteq> '''' then ddl_loop pf ts tbl rest (ddls @ [ddl @ '';''])
           else ddl_loop pf ts tbl rest ddls))"

text \<open>
  \<open>tidbsql.GetColumnDiff\<close> belongs to another package; here it is the parameter
  \<open>getColumnDiff\<close>, from the previous and the current columns to an error or the diff entries.
\<close>

definition GenDDLViaColumnsDiff ::
  "(string \<Rightarrow> bool) \<Rightarrow> (TableCol \<Rightarrow> error + string) \<Rightarrow>
   (TableCol list \<Rightarrow> TableCol list \<Rightarrow> error + ColumnDiff list) \<Rightarrow>
   TableCol list \<Rightarrow> TableDefinition \<Rightarrow> error + string list" where
  "GenDDLViaColumnsDiff pf ts getColumnDiff prevColumns curTableDef =
     (if Type curTableDef = ActionTruncateTable then
        Inr [''TRUNCATE TABLE '' @ Table curTableDef]
      else if Type curTableDef = ActionDropTable then
        Inr [''DROP TABLE '' @ Table curTableDef]
      else if Type curTableDef = ActionCreateTable then
        Inl (Err ''Received create table ddl, which should not happen'')
      else if Type curTableDef = ActionRenameTables then
        Inl (Err (''Received rename table ddl, new change data can not be capture by TiCDC any more.''
                  @ ''If you want to rename table, please start a new task to capture the new table''))
      else if Type curTableDef = ActionDropSchema then
        Inr [''DROP SCHEMA '' @ Schema curTableDef @ '' CASCADE'']
      else if Type curTableDef = ActionCreateSchema then
        Inl (Err ''Received create schema ddl, which should not happen'')
      else
        (case getColumnDiff prevColumns (Columns curTableDef) of
           Inl e \<Rightarrow> Inl e
         | Inr columnDiff \<Rightarrow> ddl_loop pf ts (Table curTableDef) columnDiff []))"

text \<open>The action tags handled before the column diff is computed.\<close>

fun is_structural :: "ActionType \<Rightarrow> bool" where
  "is_structural (ActionOther n) = False"
| "is_structural t = True"

text \<open>The diff entries for which the loop builds a statement.\<close>

definition emits_ddl :: "ColumnDiff \<Rightarrow> bool" where
  "emits_ddl item =
     (Action item = ADD_COLUMN \<or> Action item = DROP_COLUMN \<or> Action item = RENAME_COLUMN)"

text \<open>A diff with its \<open>UNCHANGE\<close> entries removed.\<close>

definition drop_unchanged :: "error + ColumnDiff list \<Rightarrow> error + ColumnDiff list" where
  "drop_unchanged r =
     (case r of Inl e \<Rightarrow> Inl e | Inr d \<Rightarrow> Inr (filter (\<lambda>i. Action i \<noteq> UNCHANGE) d))"

section \<open>Snowflake table creation (snowsql/sql.go)\<close>

text \<open>
  \<open>strings.ToUpper\<close> on ASCII text: the data type names it is applied to are the
  lower-case ASCII labels of the switch.
\<close>

definition upper_char :: "char \<Rightarrow> char" where
  "upper_char c =
     (let n = (of_char c :: nat) in if 97 \<le> n \<and> n \<le> 122 then char_of (n - 32) else c)"

definition ToUpper :: "string \<Rightarrow> string" where
  "ToUpper s = map upper_char s"

text \<open>\<open>tidbsql.TiDBColumnInfo\<close>, one row of \<open>information_schema.columns\<close>; a nil pointer is
  \<open>None\<close>.\<close>

record TiDBColumnInfo =
  ColumnName :: string
  ColumnDefault :: "string option"
  IsNullable :: string
  DataType :: string
  CharMaxLength :: "int option"
  NumPrecision :: "int option"
  NumScale :: "int option"
  DateTimePrec :: "int option"

definition GetDefaultValueString :: "(string \<Rightarrow> bool) \<Rightarrow> string \<Rightarrow> string" where
  "GetDefaultValueString pf val = (if \<not> pf val then sq @ val @ sq else val)"

text \<open>The switch on the data type: the column name and its Snowflake type. An unsupported
  type is printed to standard output and leaves the text empty.\<close>

definition column_type_query :: "TiDBColumnInfo \<Rightarrow> error + string" where
  "column_type_query column =
     (let dt = DataType column; n = ColumnName column in
      if dt \<in> set [''text'', ''longtext'', ''mediumtext'', ''tinytext'',
                    ''blob'', ''longblob'', ''mediumblob'', ''tinyblob''] then
        Inr (n @ '' '' @ ''TEXT'')
      else if dt \<in> set [''varchar'', ''char'', ''binary'', ''varbinary''] then
        (case CharMaxLength column of
           None \<Rightarrow> Inl NilDereference
         | Some l \<Rightarrow> Inr (n @ '' '' @ ToUpper dt @ ''('' @ show_int l @ '')''))
      else if dt \<in> set [''int'', ''mediumint''] then
        Inr (n @ '' '' @ ''INT'')
      else if dt \<in> set [''bigint'', ''tinyint'', ''smallint'', ''float'', ''double''] then
        Inr (n @ '' '' @ ToUpper dt)
      else if dt \<in> set [''decimal'', ''numeric''] then
        (case NumPrecision column of
           None \<Rightarrow> Inl NilDereference
         | Some p \<Rightarrow>
             (case NumScale column of
                None \<Rightarrow> Inl NilDereference
              | Some s \<Rightarrow>
                  Inr (n @ '' '' @ ToUpper dt @ ''('' @ show_int p @ '', '' @ show_int s @ '')'')))
      else if dt \<in> set [''bool'', ''boolean''] then
        Inr (n @ '' '' @ ''BOOLEAN'')
      else if dt = ''date'' then
        Inr (n @ '' '' @ ''DATE'')
      else if dt \<in> set [''datetime'', ''timestamp'', ''time''] then
        (case DateTimePrec column of
           None \<Rightarrow> Inl NilDereference
         | Some p \<Rightarrow> Inr (n @ '' '' @ ToUpper dt @ ''('' @ show_int p @ '')''))
      else Inr '''')"

text \<open>What follows the type: \<open>NOT NULL\<close> and the \<open>DEFAULT\<close> clause, which is built with
  the format \<open>DEFAULT '%s'\<close> from the result of \<open>GetDefaultValueString\<close>.\<close>

definition column_suffix :: "(string \<Rightarrow> bool) \<Rightarrow> TiDBColumnInfo \<Rightarrow> string" where
  "column_suffix pf column =
     (if IsNullable column = ''false'' then '' NOT NULL'' else '''')
     @ (case ColumnDefault column of
          Some d \<Rightarrow> '' DEFAULT '' @ sq @ GetDefaultValueString pf d @ sq
        | None \<Rightarrow> (if IsNullable column = ''true'' then '' DEFAULT NULL'' else ''''))"

definition column_row :: "(string \<Rightarrow> bool) \<Rightarrow> TiDBColumnInfo \<Rightarrow> error + string" where
  "column_row pf column =
     (case column_type_query column of
        Inl e \<Rightarrow> Inl e
      | Inr createTableQuery \<Rightarrow> Inr (createTableQuery @ column_suffix pf column))"

text \<open>The loop over the rows of the column query; a row that fails to scan is \<open>Inl\<close>.\<close>

fun column_rows :: "(string \<Rightarrow> bool) \<Rightarrow> (error + TiDBColumnInfo) list \<Rightarrow> error + string list" where
  "column_rows pf [] = Inr []"
| "column_rows pf (r # rs) =
     (case r of
        Inl e \<Rightarrow> Inl e
      | Inr column \<Rightarrow>
          (case column_row pf column of
             Inl e \<Rightarrow> Inl e
           | Inr q \<Rightarrow>
               (case column_rows pf rs of
                  Inl e \<Rightarrow> Inl e
                | Inr qs \<Rightarrow> Inr (q # qs))))"

text \<open>
  \<open>GenCreateSchema\<close>, from the results of its two queries: the rows of the column query
  (or its error) and the rows \<open>(KEY_NAME, COLUMN_NAME, SEQ_IN_INDEX)\<close> of the index query
  (or its error), the latter in the order \<open>slices.SortFunc\<close> leaves them in.
\<close>

definition GenCreateSchema ::
  "(string \<Rightarrow> bool) \<Rightarrow> string \<Rightarrow> error + (error + TiDBColumnInfo) list \<Rightarrow>
   error + (string \<times> string \<times> string) list \<Rightarrow> error + string" where
  "GenCreateSchema pf sourceTable columnResult indexResult =
     (case columnResult of
        Inl e \<Rightarrow> Inl e
      | Inr rows \<Rightarrow>
          (case column_rows pf rows of
             Inl e \<Rightarrow> Inl e
           | Inr columnRows \<Rightarrow>
               (case indexResult of
                  Inl e \<Rightarrow> Inl e
                | Inr indexResults \<Rightarrow>
                    (let snowflakePKColumns =
                           map (\<lambda>(keyName, columnName, seq). columnName)
                             (filter (\<lambda>(keyName, columnName, seq). keyName = ''PRIMARY'')
                                indexResults);
                         sqlRows = columnRows
                           @ (if snowflakePKColumns \<noteq> []
                              then [''PRIMARY KEY ('' @ Join snowflakePKColumns '', '' @ '')'']
                              else [])
                     in Inr (Join [''CREATE OR REPLACE TABLE '' @ sourceTable @ '' ('',
                                   Join (map (\<lambda>r. ''    '' @ r) sqlRows) '',\<newline>'',
                                   '')''] ''\<newline>'')))))"

section \<open>The merge statement (snowsql/sql.go)\<close>

text \<open>The six lists that \<open>GenMergeInto\<close> builds from the columns, in the order of the
  source. The index of the loop over the columns starts at 0, so the first column is \<open>$5\<close>.\<close>

definition selectStat :: "TableDefinition \<Rightarrow> string list" where
  "selectStat tableDef =
     (''$1 AS '' @ dq @ ''METADATA$FLAG'' @ dq)
     # map (\<lambda>(i, col). ''$'' @ show_nat (i + 5) @ '' AS '' @ Name col)
         (enumerate 0 (Columns tableDef))"

definition pkColumn :: "TableDefinition \<Rightarrow> string list" where
  "pkColumn tableDef = map Name (filter (\<lambda>col. IsPK col = ''true'') (Columns tableDef))"

definition onStat :: "TableDefinition \<Rightarrow> string list" where
  "onStat tableDef =
     map (\<lambda>col. ''T.'' @ Name col @ '' = S.'' @ Name col)
       (filter (\<lambda>col. IsPK col = ''true'') (Columns tableDef))"

definition updateStat :: "TableDefinition \<Rightarrow> string list" where
  "updateStat tableDef = map (\<lambda>col. Name col @ '' = S.'' @ Name col) (Columns tableDef)"

definition insertStat :: "TableDefinition \<Rightarrow> string list" where
  "insertStat tableDef = map Name (Columns tableDef)"

definition valuesStat :: "TableDefinition \<Rightarrow> string list" where
  "valuesStat tableDef = map (\<lambda>col. ''S.'' @ Name col) (Columns tableDef)"

text \<open>The text between the statement's lines: a line feed and two tabs of indentation.\<close>

definition nl2 :: string where
  "nl2 = ''\<newline>'' @ tab @ tab"

definition nl3 :: string where
  "nl3 = ''\<newline>'' @ tab @ tab @ tab"

definition GenMergeInto :: "TableDefinition \<Rightarrow> string \<Rightarrow> string \<Rightarrow> string" where
  "GenMergeInto tableDef filePath stageName =
     ''MERGE INTO '' @ Table tableDef @ '' AS T USING''
     @ nl2 @ ''(''
     @ nl3 @ ''SELECT''
     @ nl3 @ tab @ Join (selectStat tableDef) '',\<newline>''
     @ nl3 @ ''FROM '' @ sq @ ''@'' @ stageName @ ''/'' @ filePath @ sq
     @ nl3 @ ''QUALIFY row_number() over (partition by '' @ Join (pkColumn tableDef) '', ''
           @ '' order by $4 desc) = 1''
     @ nl2 @ '') AS S''
     @ nl2 @ ''ON''
     @ nl2 @ ''(''
     @ nl3 @ Join (onStat tableDef) '' AND ''
     @ nl2 @ '')''
     @ nl2 @ ''WHEN MATCHED AND S.METADATA$FLAG != '' @ sq @ ''D'' @ sq @ '' THEN UPDATE SET ''
           @ Join (updateStat tableDef) '', ''
     @ nl2 @ ''WHEN MATCHED AND S.METADATA$FLAG = '' @ sq @ ''D'' @ sq @ '' THEN DELETE''
     @ nl2 @ ''WHEN NOT MATCHED AND S.METADATA$FLAG != '' @ sq @ ''D'' @ sq @ '' THEN INSERT (''
           @ Join (insertStat tableDef) '', '' @ '') VALUES (''
           @ Join (valuesStat tableDef) '', '' @ '');''"

section \<open>Loading the snapshot (cmd/snowflake/snapshot.go)\<close>

text \<open>
  The calls that \<open>loadSnapshotDataIntoSnowflake\<close> makes on the Snowflake connection, in the
  order it makes them: \<open>snowsql.CreateExternalStage\<close> with the stage name and the workspace
  URL, \<open>Exec\<close> of a load statement, \<open>snowsql.DropStage\<close> with the stage name.
\<close>

datatype sf_call =
    CallCreateExternalStage string string
  | CallExec string
  | CallDropStage string

text \<open>
  What the function reads of the session, and what the world answers: the result of creating
  the stage, of \<open>url.Parse\<close> on the workspace path (host and path), of \<open>ListObjectsV2\<close> (the
  keys of the listed objects), of the \<open>n\<close>-th \<open>Exec\<close> of a load statement, and of dropping
  the stage. \<open>None\<close> is a nil error.
\<close>

record ReplicateSession =
  SourceDatabase :: string
  SourceTable :: string
  StorageWorkspacePath :: string

record snapshot_world =
  create_stage_result :: "error option"
  parse_result :: "error + string \<times> string"
  list_result :: "error + string list"
  exec_result :: "nat \<Rightarrow> string \<Rightarrow> error option"
  drop_stage_result :: "error option"

text \<open>The keys that name a part of the dump, each cut down to its path in the workspace.\<close>

definition dumpedSnapshots :: "string \<Rightarrow> string \<Rightarrow> string list \<Rightarrow> string list" where
  "dumpedSnapshots workspacePrefix dumpFilePrefix keys =
     map (\<lambda>key. TrimPrefix key workspacePrefix)
       (filter (\<lambda>key. HasPrefix key dumpFilePrefix \<and> HasSuffix key ''.csv'') keys)"

text \<open>
  The loop over the parts. \<open>snowsql.GenLoadSnapshotFromStage\<close> belongs to another package;
  here it is the parameter \<open>genLoad\<close>, from the table, the stage and the part to the
  statement. The loop returns the calls made and the error, at the first \<open>Exec\<close> that fails.
  The test of \<open>err\<close> that follows the call of \<open>GenLoadSnapshotFromStage\<close> reads the error of
  the statement before, which is nil whenever the loop goes on, so it never returns.
\<close>

fun load_loop ::
  "(nat \<Rightarrow> string \<Rightarrow> error option) \<Rightarrow> (string \<Rightarrow> string \<Rightarrow> string \<Rightarrow> string) \<Rightarrow>
   string \<Rightarrow> string \<Rightarrow> nat \<Rightarrow> string list \<Rightarrow> sf_call list \<times> error option" where
  "load_loop ex genLoad tbl stageName n [] = ([], None)"
| "load_loop ex genLoad tbl stageName n (dumpedSnapshot # rest) =
     (let sql = genLoad tbl stageName dumpedSnapshot in
      case ex n sql of
        Some e \<Rightarrow> ([CallExec sql], Some e)
      | None \<Rightarrow>
          (case load_loop ex genLoad tbl stageName (Suc n) rest of
             (calls, r) \<Rightarrow> (CallExec sql # calls, r)))"

definition loadSnapshotDataIntoSnowflake ::
  "(string \<Rightarrow> string \<Rightarrow> string \<Rightarrow> string) \<Rightarrow> ReplicateSession \<Rightarrow> snapshot_world \<Rightarrow>
   sf_call list \<times> error option" where
  "loadSnapshotDataIntoSnowflake genLoad sess w =
     (let stageName = ''snapshot_stage_'' @ SourceTable sess;
          created = [CallCreateExternalStage stageName (StorageWorkspacePath sess)] in
      case create_stage_result w of
        Some e \<Rightarrow> (created, Some (Annotate e ''Failed to create stage''))
      | None \<Rightarrow>
          (case parse_result w of
             Inl e \<Rightarrow> (created, Some e)
           | Inr (host, path) \<Rightarrow>
               (let workspacePrefix = TrimPrefix path ''/'';
                    snapshotPrefix = workspacePrefix @ ''/snapshot/'';
                    dumpFilePrefix =
                      snapshotPrefix @ SourceDatabase sess @ ''.'' @ SourceTable sess @ ''.'' in
                case list_result w of
                  Inl e \<Rightarrow> (created, Some e)
                | Inr keys \<Rightarrow>
                    if length keys = 0 then (created, Some (Err ''No snapshot files found''))
                    else
                      (case load_loop (exec_result w) genLoad (SourceTable sess) stageName 0
                              (dumpedSnapshots workspacePrefix dumpFilePrefix keys) of
                         (calls, Some e) \<Rightarrow> (created @ calls, Some e)
                       | (calls, None) \<Rightarrow>
                           (created @ calls @ [CallDropStage stageName],
                            drop_stage_result w)))))"

text \<open>The load statements among the calls, and whether the stage was dropped.\<close>

fun is_load :: "sf_call \<Rightarrow> bool" where
  "is_load (CallExec sql) = True"
| "is_load c = False"

fun is_drop :: "sf_call \<Rightarrow> bool" where
  "is_drop (CallDropStage s) = True"
| "is_drop c = False"

text \<open>Names for what the function computes on the way: the stage, the parts it will load
  (from the path of the parsed workspace URL and the listed keys) and the statement of a
  part.\<close>

definition stage_of :: "ReplicateSession \<Rightarrow> string" where
  "stage_of sess = ''snapshot_stage_'' @ SourceTable sess"

definition parts_of :: "ReplicateSession \<Rightarrow> string \<Rightarrow> string list \<Rightarrow> string list" where
  "parts_of sess path keys =
     dumpedSnapshots (TrimPrefix path ''/'')
       (TrimPrefix path ''/'' @ ''/snapshot/'' @ SourceDatabase sess @ ''.'' @ SourceTable sess @ ''.'')
       keys"

definition load_stmt ::
  "(string \<Rightarrow> string \<Rightarrow> string \<Rightarrow> string) \<Rightarrow> ReplicateSession \<Rightarrow> string \<Rightarrow> string" where
  "load_stmt genLoad sess part = genLoad (SourceTable sess) (stage_of sess) part"

section \<open>The orchestrator (the \<open>run\<close> closure of \<open>NewSnowflakeCmd\<close>)\<close>

datatype RunMode = RunModeFull | RunModeSnapshotOnly | RunModeIncrementalOnly

text \<open>The flags that \<open>run\<close> reads.\<close>

record run_config =
  mode :: RunMode
  sindURIStr :: string
  tableFQN :: string

text \<open>
  What the world answers to the calls of \<open>run\<close>, in the order of the source: the external
  storage, the two markers \<open>increment/metadata\<close> and \<open>snapshot/loadinfo\<close>,
  \<open>tidbsql.GetCurrentTSO\<close>, and the error (or \<open>None\<close>) of every later call.
\<close>

record run_world =
  get_storage :: "error option"
  metadata_exists :: "error + bool"
  loadinfo_exists :: "error + bool"
  current_tso :: "error + 64 word"
  join_increment_path :: "error option"
  gen_sink_uri :: "error option"
  create_changefeed :: "error option"
  parse_sink_uri :: "error option"
  join_snapshot_path :: "error option"
  open_db_snapshot :: "error option"
  parse_snapshot_uri :: "error option"
  new_connector_snapshot :: "error option"
  start_replicate_snapshot :: "error option"
  open_db_increment :: "error option"
  new_connector_increment :: "error option"
  start_replicate_increment :: "error option"

text \<open>
  The calls of \<open>run\<close> that the claims are about: resolving the current TSO, registering the
  changefeed (with the \<open>StartTs\<close> of its request), the snapshot replication (with the TSO
  text it is given) and the incremental replication.
\<close>

datatype run_event =
    GetCurrentTSO
  | CreateChangefeed "64 word"
  | StartReplicateSnapshot string
  | StartReplicateIncrement

text \<open>\<open>createChangefeed\<close> sets \<open>StartTs\<close> to 0 and overwrites it when \<open>startTSO\<close> is not 0.\<close>

definition changefeed_StartTs :: "64 word \<Rightarrow> 64 word" where
  "changefeed_StartTs startTSO = (if startTSO \<noteq> 0 then startTSO else 0)"

text \<open>One step after another: the second runs when the first returned no error.\<close>

definition and_then ::
  "run_event list \<times> error option \<Rightarrow> run_event list \<times> error option \<Rightarrow>
   run_event list \<times> error option" where
  "and_then a b =
     (case a of
        (tr, Some e) \<Rightarrow> (tr, Some e)
      | (tr, None) \<Rightarrow> (case b of (tr', r) \<Rightarrow> (tr @ tr', r)))"

definition call :: "error option \<Rightarrow> run_event list \<times> error option" where
  "call r = ([], r)"

text \<open>Step 1: the start TSO is resolved when the load-finished marker is absent.\<close>

definition get_start_tso :: "run_world \<Rightarrow> bool \<Rightarrow> run_event list \<times> (error + 64 word)" where
  "get_start_tso w loadinfoExist =
     (if \<not> loadinfoExist then
        (case current_tso w of
           Inl e \<Rightarrow> ([GetCurrentTSO], Inl (Annotate e ''Failed to get current TSO''))
         | Inr tso \<Rightarrow> ([GetCurrentTSO], Inr tso))
      else ([], Inr 0))"

text \<open>Step 2: the changefeed.\<close>

definition create_changefeed_step ::
  "run_config \<Rightarrow> run_world \<Rightarrow> bool \<Rightarrow> bool \<Rightarrow> 64 word \<Rightarrow> run_event list \<times> error option" where
  "create_changefeed_step c w loadinfoExist metadataExist startTSO =
     (if mode c = RunModeFull \<or> (mode c = RunModeIncrementalOnly \<and> sindURIStr c = '''') then
        and_then (call (join_increment_path w))
       (and_then (call (gen_sink_uri w))
         (if \<not> loadinfoExist \<or> \<not> metadataExist then
            ([CreateChangefeed (changefeed_StartTs startTSO)],
             (case create_changefeed w of
                Some e \<Rightarrow> Some (Annotate e ''Failed to create changefeed'')
              | None \<Rightarrow> None))
          else ([], None)))
      else if mode c = RunModeIncrementalOnly \<and> sindURIStr c \<noteq> '''' then
        call (parse_sink_uri w)
      else ([], None))"

text \<open>\<open>strings.SplitN(tableFQN, ".", 2)\<close> has two parts when the name holds a dot.\<close>

definition split_table_step :: "run_config \<Rightarrow> run_event list \<times> error option" where
  "split_table_step c =
     (if tableFQN c \<noteq> '''' \<and> CHR ''.'' \<notin> set (tableFQN c) then
        ([], Some (Err ''table must be a full-qualified name like mydb.mytable''))
      else ([], None))"

text \<open>Step 3: the snapshot; \<open>fmt.Sprint(startTSO)\<close> is the decimal text of the TSO.\<close>

definition replicate_snapshot_step ::
  "run_config \<Rightarrow> run_world \<Rightarrow> bool \<Rightarrow> 64 word \<Rightarrow> run_event list \<times> error option" where
  "replicate_snapshot_step c w loadinfoExist startTSO =
     (if (mode c = RunModeFull \<or> mode c = RunModeSnapshotOnly) \<and> \<not> loadinfoExist then
        and_then (call (join_snapshot_path w))
       (and_then (call (open_db_snapshot w))
       (and_then (call (case parse_snapshot_uri w of
                          Some e \<Rightarrow> Some (Annotate e ''Failed to parse workspace path'')
                        | None \<Rightarrow> None))
       (and_then (call (new_connector_snapshot w))
          ([StartReplicateSnapshot (show_nat (unat startTSO))],
           (case start_replicate_snapshot w of
              Some e \<Rightarrow> Some (Annotate e ''Failed to replicate snapshot'')
            | None \<Rightarrow> None)))))
      else ([], None))"

text \<open>Step 4: the incremental replication.\<close>

definition replicate_increment_step ::
  "run_config \<Rightarrow> run_world \<Rightarrow> run_event list \<times> error option" where
  "replicate_increment_step c w =
     (if mode c = RunModeFull \<or> mode c = RunModeIncrementalOnly then
        and_then (call (open_db_increment w))
       (and_then (call (new_connector_increment w))
          ([StartReplicateIncrement],
           (case start_replicate_increment w of
              Some e \<Rightarrow> Some (Annotate e ''Failed to replicate incremental'')
            | None \<Rightarrow> None)))
      else ([], None))"

definition run :: "run_config \<Rightarrow> run_world \<Rightarrow> run_event list \<times> error option" where
  "run c w =
     (case get_storage w of
        Some e \<Rightarrow> ([], Some e)
      | None \<Rightarrow>
          (case metadata_exists w of
             Inl e \<Rightarrow> ([], Some e)
           | Inr metadataExist \<Rightarrow>
               (case loadinfo_exists w of
                  Inl e \<Rightarrow> ([], Some e)
                | Inr loadinfoExist \<Rightarrow>
                    (case get_start_tso w loadinfoExist of
                       (tr, Inl e) \<Rightarrow> (tr, Some e)
                     | (tr, Inr startTSO) \<Rightarrow>
                         and_then (tr, None)
                        (and_then (create_changefeed_step c w loadinfoExist metadataExist startTSO)
                        (and_then (split_table_step c)
                        (and_then (replicate_snapshot_step c w loadinfoExist startTSO)
                           (replicate_increment_step c w))))))))"



definition ok_world :: "bool \<Rightarrow> bool \<Rightarrow> 64 word \<Rightarrow> run_world" where
  "ok_world metadataExist loadinfoExist tso =
     \<lparr>get_storage = None, metadata_exists = Inr metadataExist,
      loadinfo_exists = Inr loadinfoExist, current_tso = Inr tso,
      join_increment_path = None, gen_sink_uri = None, create_changefeed = None,
      parse_sink_uri = None, join_snapshot_path = None, open_db_snapshot = None,
      parse_snapshot_uri = None, new_connector_snapshot = None,
      start_replicate_snapshot = None, open_db_increment = None,
      new_connector_increment = None, start_replicate_increment = None\<rparr>"

text \<open>The events that may follow the registration of the changefeed in a run whose start
  TSO is \<open>t\<close>: the snapshot replication at \<open>t\<close> and the incremental replication.\<close>

definition later_event :: "64 word \<Rightarrow> run_event \<Rightarrow> bool" where
  "later_event t e =
     (e = StartReplicateSnapshot (show_nat (unat t)) \<or> e = StartReplicateIncrement)"

section \<open>The progress poller of \<open>LoadSnapshotFromStage\<close> (snowsql/sql.go)\<close>

text \<open>
  After the statement is built, \<open>LoadSnapshotFromStage\<close> starts one goroutine and then runs
  three steps itself: the blocking \<open>db.ExecContext\<close>, the send on the unbuffered channel
  \<open>copyFinished\<close>, and \<open>wg.Wait()\<close>. The goroutine first tests the callback for nil and
  returns if it is; otherwise it loops on a \<open>select\<close> between a receive on \<open>copyFinished\<close>
  and a tick, and polls on a tick. Its deferred \<open>wg.Done()\<close> runs when it returns.
  The two program counters:
\<close>

datatype main_pc = MExec | MSend | MWait | MReturned

datatype poller_pc = PCheck | PSelect | PPoll | PDone

text \<open>\<open>late_polls\<close> counts the polls begun after \<open>db.ExecContext\<close> has returned.\<close>

record load_state =
  mpc :: main_pc
  ppc :: poller_pc
  late_polls :: nat

definition load_init :: load_state where
  "load_init = \<lparr>mpc = MExec, ppc = PCheck, late_polls = 0\<rparr>"

text \<open>
  The interleaved steps of the two goroutines; the parameter says whether
  \<open>onSnapshotLoadProgress\<close> is nil. A send on an unbuffered channel completes only together
  with a receive, so it is one joint step of the sender at \<open>MSend\<close> and the receiver at
  \<open>PSelect\<close>. A tick may arrive whenever the poller is at its \<open>select\<close>. \<open>db.ExecContext\<close>
  returns with or without an error; the steps after it are the same.
\<close>

inductive load_step :: "bool \<Rightarrow> load_state \<Rightarrow> load_state \<Rightarrow> bool" where
  exec_returns: "mpc s = MExec \<Longrightarrow> load_step cb_nil s (s\<lparr>mpc := MSend\<rparr>)"
| callback_nil: "ppc s = PCheck \<Longrightarrow> cb_nil \<Longrightarrow> load_step cb_nil s (s\<lparr>ppc := PDone\<rparr>)"
| callback_set: "ppc s = PCheck \<Longrightarrow> \<not> cb_nil \<Longrightarrow> load_step cb_nil s (s\<lparr>ppc := PSelect\<rparr>)"
| tick: "ppc s = PSelect \<Longrightarrow>
         load_step cb_nil s
           (s\<lparr>ppc := PPoll,
              late_polls := (if mpc s = MExec then late_polls s else late_polls s + 1)\<rparr>)"
| polled: "ppc s = PPoll \<Longrightarrow> load_step cb_nil s (s\<lparr>ppc := PSelect\<rparr>)"
| copy_finished: "mpc s = MSend \<Longrightarrow> ppc s = PSelect \<Longrightarrow>
                  load_step cb_nil s (s\<lparr>mpc := MWait, ppc := PDone\<rparr>)"
| wait_returns: "mpc s = MWait \<Longrightarrow> ppc s = PDone \<Longrightarrow>
                 load_step cb_nil s (s\<lparr>mpc := MReturned\<rparr>)"

section \<open>The merge statement as syntax, and what it does to a table\<close>

text \<open>
  The statement that \<open>GenMergeInto\<close> writes, kept as a value: the target, the select list,
  the staged file, the columns after \<open>partition by\<close>, the columns \<open>c\<close> of the conditions
  \<open>T.c = S.c\<close> after \<open>ON\<close>, and the \<open>WHEN\<close> clauses in their order. A clause is for matched
  or for unmatched rows, tests the flag for being \<open>'D'\<close> or for not being \<open>'D'\<close>, and
  updates the columns \<open>c\<close> with \<open>c = S.c\<close>, deletes, or inserts the columns \<open>c\<close> from
  \<open>S.c\<close>.
\<close>

datatype merge_action = UpdateSet "string list" | DeleteRow | InsertValues "string list"

record when_clause =
  on_matched :: bool
  flag_is_D :: bool
  then_do :: merge_action

record merge_stmt =
  merge_into :: string
  select_list :: "string list"
  from_stage :: string
  from_path :: string
  partition_by :: "string list"
  on_equal :: "string list"
  when_clauses :: "when_clause list"

fun render_action :: "merge_action \<Rightarrow> string" where
  "render_action (UpdateSet cs) = ''UPDATE SET '' @ Join (map (\<lambda>c. c @ '' = S.'' @ c) cs) '', ''"
| "render_action DeleteRow = ''DELETE''"
| "render_action (InsertValues cs) =
     ''INSERT ('' @ Join cs '', '' @ '') VALUES ('' @ Join (map (\<lambda>c. ''S.'' @ c) cs) '', '' @ '')''"

definition render_when :: "when_clause \<Rightarrow> string" where
  "render_when cl =
     ''WHEN '' @ (if on_matched cl then ''MATCHED'' else ''NOT MATCHED'')
     @ '' AND S.METADATA$FLAG '' @ (if flag_is_D cl then ''= '' else ''!= '') @ sq @ ''D'' @ sq
     @ '' THEN '' @ render_action (then_do cl)"

definition render_merge :: "merge_stmt \<Rightarrow> string" where
  "render_merge m =
     ''MERGE INTO '' @ merge_into m @ '' AS T USING''
     @ nl2 @ ''(''
     @ nl3 @ ''SELECT''
     @ nl3 @ tab @ Join (select_list m) '',\<newline>''
     @ nl3 @ ''FROM '' @ sq @ ''@'' @ from_stage m @ ''/'' @ from_path m @ sq
     @ nl3 @ ''QUALIFY row_number() over (partition by '' @ Join (partition_by m) '', ''
           @ '' order by $4 desc) = 1''
     @ nl2 @ '') AS S''
     @ nl2 @ ''ON''
     @ nl2 @ ''(''
     @ nl3 @ Join (map (\<lambda>c. ''T.'' @ c @ '' = S.'' @ c) (on_equal m)) '' AND ''
     @ nl2 @ '')''
     @ concat (map (\<lambda>cl. nl2 @ render_when cl) (when_clauses m))
     @ '';''"

text \<open>The statement of \<open>GenMergeInto\<close> as such a value.\<close>

definition merge_stmt_of :: "TableDefinition \<Rightarrow> string \<Rightarrow> string \<Rightarrow> merge_stmt" where
  "merge_stmt_of tableDef filePath stageName =
     \<lparr>merge_into = Table tableDef,
      select_list = selectStat tableDef,
      from_stage = stageName,
      from_path = filePath,
      partition_by = pkColumn tableDef,
      on_equal = pkColumn tableDef,
      when_clauses =
        [\<lparr>on_matched = True, flag_is_D = False, then_do = UpdateSet (insertStat tableDef)\<rparr>,
         \<lparr>on_matched = True, flag_is_D = True, then_do = DeleteRow\<rparr>,
         \<lparr>on_matched = False, flag_is_D = False, then_do = InsertValues (insertStat tableDef)\<rparr>]\<rparr>"

text \<open>
  Rows and staged change rows. A row gives each column its value, \<open>None\<close> for NULL. A
  change row has the flag (the first field of the staged file), the ordering key (the
  fourth field, the commit timestamp, taken as a number) and the values of the columns that
  the select list names.
\<close>

type_synonym row = "string \<rightharpoonup> string"

record ChangeRow =
  flag :: string
  ordering_key :: nat
  payload :: row




text \<open>
  The \<open>ON\<close> condition between a target row and a change row: equal and not NULL on each
  column. The first clause whose condition holds is applied. An update changes the listed
  columns of the target row, an insert builds a row of the listed columns.
\<close>

definition row_matches :: "string list \<Rightarrow> row \<Rightarrow> ChangeRow \<Rightarrow> bool" where
  "row_matches cs t s = list_all (\<lambda>c. t c = payload s c \<and> t c \<noteq> None) cs"

definition clause_fires :: "bool \<Rightarrow> ChangeRow \<Rightarrow> when_clause \<Rightarrow> bool" where
  "clause_fires matched s cl = (on_matched cl = matched \<and> flag_is_D cl = (flag s = ''D''))"

datatype outcome = Updated row | Deleted | Inserted row | Untouched

fun apply_action :: "merge_action \<Rightarrow> row option \<Rightarrow> ChangeRow \<Rightarrow> outcome" where
  "apply_action (UpdateSet cs) (Some t) s =
     Updated (\<lambda>c. if c \<in> set cs then payload s c else t c)"
| "apply_action DeleteRow (Some t) s = Deleted"
| "apply_action (InsertValues cs) None s =
     Inserted (\<lambda>c. if c \<in> set cs then payload s c else None)"
| "apply_action a t s = Untouched"

text \<open>The outcome for a change row and the target row it matches (\<open>None\<close> when it matches
  none).\<close>

definition row_outcome :: "merge_stmt \<Rightarrow> row option \<Rightarrow> ChangeRow \<Rightarrow> outcome" where
  "row_outcome m t s =
     (case find (clause_fires (t \<noteq> None) s) (when_clauses m) of
        None \<Rightarrow> Untouched
      | Some cl \<Rightarrow> apply_action (then_do cl) t s)"




text \<open>The row that a change row writes: its values on the columns of the table.\<close>

definition written_row :: "TableDefinition \<Rightarrow> ChangeRow \<Rightarrow> row" where
  "written_row tableDef s = (\<lambda>c. if c \<in> set (insertStat tableDef) then payload s c else None)"

text \<open>The batch and the table of the scenario: three changes of the row with key 5.\<close>

definition scenario_table :: TableDefinition where
  "scenario_table =
     \<lparr>Table = ''t'', Schema = ''s'', Type = ActionOther 0,
      Columns = [\<lparr>Name = ''id'', Tp = ''int'', Default = None, Precision = ''11'',
                  Scale = ''0'', Nullable = ''false'', IsPK = ''true''\<rparr>,
                 \<lparr>Name = ''name'', Tp = ''varchar'', Default = None, Precision = ''10'',
                  Scale = '''', Nullable = ''true'', IsPK = ''false''\<rparr>]\<rparr>"





section \<open>Properties of the DDL translation\<close>

lemma ddl_of_item_UNCHANGE: "Action item = UNCHANGE \<Longrightarrow> ddl_of_item pf ts tbl item = Inr ''''"
  by (simp add: ddl_of_item_def)

lemma ddl_of_item_nonempty:
  "ddl_of_item pf ts tbl item = Inr ddl \<Longrightarrow> (ddl \<noteq> '''') = emits_ddl item"
  by (cases "Action item")
     (auto simp: ddl_of_item_def emits_ddl_def split: option.splits sum.splits)

lemma ddl_loop_filter:
  "ddl_loop pf ts tbl (filter (\<lambda>i. Action i \<noteq> UNCHANGE) items) ddls =
   ddl_loop pf ts tbl items ddls"
  by (induction items arbitrary: ddls) (auto simp: ddl_of_item_UNCHANGE split: sum.splits)

lemma ddl_loop_length:
  "ddl_loop pf ts tbl items ddls = Inr out \<Longrightarrow>
   length out = length ddls + length (filter emits_ddl items)"
proof (induction items arbitrary: ddls)
  case Nil
  then show ?case by simp
next
  case (Cons item rest)
  then obtain ddl where d: "ddl_of_item pf ts tbl item = Inr ddl"
    by (cases "ddl_of_item pf ts tbl item") auto
  from ddl_of_item_nonempty[OF d] Cons d show ?case
    by (cases "ddl = ''''") auto
qed

lemma structural_indep:
  "is_structural (Type d) \<Longrightarrow>
   GenDDLViaColumnsDiff pf ts g prev d =
   GenDDLViaColumnsDiff pf' ts' g' prev' (d\<lparr>Columns := cols'\<rparr>)"
  by (cases "Type d") (simp_all add: GenDDLViaColumnsDiff_def)

lemma structural_no_alter:
  "is_structural (Type d) \<Longrightarrow> GenDDLViaColumnsDiff pf ts g prev d = Inr ddls \<Longrightarrow>
   x \<in> set ddls \<Longrightarrow> \<not> HasPrefix x ''ALTER TABLE''"
  by (cases "Type d") (auto simp: GenDDLViaColumnsDiff_def HasPrefix_def)

lemma GenDDL_drop_unchanged:
  "GenDDLViaColumnsDiff pf ts (\<lambda>p c. drop_unchanged (g p c)) prev d =
   GenDDLViaColumnsDiff pf ts g prev d"
  by (auto simp: GenDDLViaColumnsDiff_def drop_unchanged_def ddl_loop_filter split: sum.splits)

lemma column_ddl_count:
  "\<not> is_structural (Type d) \<Longrightarrow> g prev (Columns d) = Inr diff \<Longrightarrow>
   GenDDLViaColumnsDiff pf ts g prev d = Inr ddls \<Longrightarrow>
   length ddls = length (filter emits_ddl diff)"
  using ddl_loop_length[of pf ts "Table d" diff "[]" ddls]
  by (cases "Type d") (simp_all add: GenDDLViaColumnsDiff_def)

text \<open>
  Claim C9. A table definition that carries a structural action tag (truncate, drop table,
  drop schema, create table, rename tables, create schema) yields no column-level statement:
  no statement of the output starts with \<open>ALTER TABLE\<close>, and the result is the same whatever
  the previous columns, the current columns and the column diff are. A diff entry classified
  \<open>UNCHANGE\<close> contributes no statement: removing these entries from the diff leaves the
  output as it is, and on the column path the output has exactly one statement for each
  entry that is an add, a drop or a rename.
\<close>

theorem structural_and_unchanged_emit_no_column_ddl:
  "(is_structural (Type curTableDef) \<longrightarrow>
      (\<forall>ddls. GenDDLViaColumnsDiff pf ts g prevColumns curTableDef = Inr ddls \<longrightarrow>
         (\<forall>x \<in> set ddls. \<not> HasPrefix x ''ALTER TABLE''))
      \<and> GenDDLViaColumnsDiff pf ts g prevColumns curTableDef =
        GenDDLViaColumnsDiff pf' ts' g' prevColumns' (curTableDef\<lparr>Columns := cols'\<rparr>))
   \<and> GenDDLViaColumnsDiff pf ts (\<lambda>p c. drop_unchanged (g p c)) prevColumns curTableDef =
     GenDDLViaColumnsDiff pf ts g prevColumns curTableDef
   \<and> (\<not> is_structural (Type curTableDef) \<longrightarrow>
        g prevColumns (Columns curTableDef) = Inr diff \<longrightarrow>
        GenDDLViaColumnsDiff pf ts g prevColumns curTableDef = Inr ddls' \<longrightarrow>
        length ddls' = length (filter emits_ddl diff))"
proof (intro conjI impI allI ballI)
  fix ddls x
  assume "is_structural (Type curTableDef)"
    and "GenDDLViaColumnsDiff pf ts g prevColumns curTableDef = Inr ddls"
    and "x \<in> set ddls"
  then show "\<not> HasPrefix x ''ALTER TABLE''"
    by (rule structural_no_alter)
next
  assume "is_structural (Type curTableDef)"
  then show "GenDDLViaColumnsDiff pf ts g prevColumns curTableDef =
    GenDDLViaColumnsDiff pf' ts' g' prevColumns' (curTableDef\<lparr>Columns := cols'\<rparr>)"
    by (rule structural_indep)
next
  show "GenDDLViaColumnsDiff pf ts (\<lambda>p c. drop_unchanged (g p c)) prevColumns curTableDef =
    GenDDLViaColumnsDiff pf ts g prevColumns curTableDef"
    by (rule GenDDL_drop_unchanged)
next
  assume "\<not> is_structural (Type curTableDef)"
    and "g prevColumns (Columns curTableDef) = Inr diff"
    and "GenDDLViaColumnsDiff pf ts g prevColumns curTableDef = Inr ddls'"
  then show "length ddls' = length (filter emits_ddl diff)"
    by (rule column_ddl_count)
qed

theorem structural_and_unchanged_emit_no_column_ddl_witness:
  "is_structural ActionTruncateTable
   \<and> GenDDLViaColumnsDiff (\<lambda>v. False) (\<lambda>c. Inr (Name c @ '' INT''))
       (\<lambda>p c. Inr [\<lparr>Action = DROP_COLUMN,
                     Before = Some \<lparr>Name = ''age'', Tp = ''int'', Default = None, Precision = ''11'',
                                    Scale = ''0'', Nullable = ''true'', IsPK = ''false''\<rparr>,
                     After = None\<rparr>]) []
       \<lparr>Table = ''t'', Schema = ''s'', Type = ActionTruncateTable, Columns = []\<rparr>
     = Inr [''TRUNCATE TABLE t'']
   \<and> \<not> HasPrefix ''TRUNCATE TABLE t'' ''ALTER TABLE''
   \<and> \<not> is_structural (ActionOther 0)
   \<and> GenDDLViaColumnsDiff (\<lambda>v. False) (\<lambda>c. Inr (Name c @ '' INT''))
       (\<lambda>p c. Inr [\<lparr>Action = UNCHANGE, Before = None, After = None\<rparr>,
                   \<lparr>Action = DROP_COLUMN,
                     Before = Some \<lparr>Name = ''age'', Tp = ''int'', Default = None, Precision = ''11'',
                                    Scale = ''0'', Nullable = ''true'', IsPK = ''false''\<rparr>,
                     After = None\<rparr>]) []
       \<lparr>Table = ''t'', Schema = ''s'', Type = ActionOther 0, Columns = []\<rparr>
     = Inr [''ALTER TABLE t DROP COLUMN age;'']
   \<and> length (filter emits_ddl
        [\<lparr>Action = UNCHANGE, Before = None, After = None\<rparr>,
         \<lparr>Action = DROP_COLUMN,
           Before = Some \<lparr>Name = ''age'', Tp = ''int'', Default = None, Precision = ''11'',
                          Scale = ''0'', Nullable = ''true'', IsPK = ''false''\<rparr>,
           After = None\<rparr>]) = 1"
  using structural_and_unchanged_emit_no_column_ddl
    [of "\<lparr>Table = ''t'', Schema = ''s'', Type = ActionTruncateTable, Columns = []\<rparr>"
        "\<lambda>v. False" "\<lambda>c. Inr (Name c @ '' INT'')"
        "\<lambda>p c. Inr [\<lparr>Action = DROP_COLUMN,
                     Before = Some \<lparr>Name = ''age'', Tp = ''int'', Default = None, Precision = ''11'',
                                    Scale = ''0'', Nullable = ''true'', IsPK = ''false''\<rparr>,
                     After = None\<rparr>]" "[]"]
    structural_and_unchanged_emit_no_column_ddl
    [of "\<lparr>Table = ''t'', Schema = ''s'', Type = ActionOther 0, Columns = []\<rparr>"
        "\<lambda>v. False" "\<lambda>c. Inr (Name c @ '' INT'')"
        "\<lambda>p c. Inr [\<lparr>Action = UNCHANGE, Before = None, After = None\<rparr>,
                   \<lparr>Action = DROP_COLUMN,
                     Before = Some \<lparr>Name = ''age'', Tp = ''int'', Default = None, Precision = ''11'',
                                    Scale = ''0'', Nullable = ''true'', IsPK = ''false''\<rparr>,
                     After = None\<rparr>]" "[]"]
  by (simp add: GenDDLViaColumnsDiff_def ddl_of_item_def emits_ddl_def HasPrefix_def)

section \<open>Rendering of default values\<close>

lemma getDefaultString_levels:
  "getDefaultString pf v = (if pf v then v else sq @ v @ sq)"
  by (simp add: getDefaultString_def)

lemma Redshift_default_clause:
  "ts column = Inr typeStr \<Longrightarrow> Default column = Some v \<Longrightarrow>
   GetRedshiftColumnString pf ts column =
     Inr (typeStr @ (if Nullable column = ''false'' then '' NOT NULL'' else '''')
          @ '' DEFAULT '' @ (if pf v then v else sq @ v @ sq))"
  by (simp add: GetRedshiftColumnString_def getDefaultString_def)

text \<open>
  Claim C8. A default value is to be rendered unquoted when its text parses as a number and
  as a single-quoted literal otherwise. \<open>getDefaultString\<close> and \<open>GetDefaultValueString\<close> do
  so, but \<open>GenCreateSchema\<close> puts the result of \<open>GetDefaultValueString\<close> between quotes
  once more: whatever \<open>ParseFloat\<close> accepts, a numeric default \<open>0\<close> is emitted as
  \<open>DEFAULT '0'\<close> and a non-numeric default \<open>abc\<close> as \<open>DEFAULT ''abc''\<close>.
\<close>

theorem GenCreateSchema_default_quoted_again:
  "GetDefaultValueString pf v = (if pf v then v else sq @ v @ sq)
   \<and> column_suffix pf (column\<lparr>ColumnDefault := Some v\<rparr>) =
       (if IsNullable column = ''false'' then '' NOT NULL'' else '''')
       @ '' DEFAULT '' @ (if pf v then sq @ v @ sq else sq @ sq @ v @ sq @ sq)
   \<and> GenCreateSchema (\<lambda>s. s = ''0'') ''t''
       (Inr [Inr \<lparr>ColumnName = ''id'', ColumnDefault = Some ''0'', IsNullable = ''false'',
                   DataType = ''int'', CharMaxLength = None, NumPrecision = Some 10,
                   NumScale = Some 0, DateTimePrec = None\<rparr>,
             Inr \<lparr>ColumnName = ''name'', ColumnDefault = Some ''abc'', IsNullable = ''true'',
                   DataType = ''varchar'', CharMaxLength = Some 10, NumPrecision = None,
                   NumScale = None, DateTimePrec = None\<rparr>])
       (Inr [(''PRIMARY'', ''id'', ''1'')])
     = Inr (''CREATE OR REPLACE TABLE t (\<newline>''
            @ ''    id INT NOT NULL DEFAULT '' @ sq @ ''0'' @ sq @ '',\<newline>''
            @ ''    name VARCHAR(10) DEFAULT '' @ sq @ sq @ ''abc'' @ sq @ sq @ '',\<newline>''
            @ ''    PRIMARY KEY (id)\<newline>)'')"
proof (intro conjI)
  show "GetDefaultValueString pf v = (if pf v then v else sq @ v @ sq)"
    by (simp add: GetDefaultValueString_def)
  show "column_suffix pf (column\<lparr>ColumnDefault := Some v\<rparr>) =
       (if IsNullable column = ''false'' then '' NOT NULL'' else '''')
       @ '' DEFAULT '' @ (if pf v then sq @ v @ sq else sq @ sq @ v @ sq @ sq)"
    by (simp add: column_suffix_def GetDefaultValueString_def)
  have up: "ToUpper ''varchar'' = ''VARCHAR''"
    by code_simp
  have n10: "show_int 10 = ''10''"
    by code_simp
  show "GenCreateSchema (\<lambda>s. s = ''0'') ''t''
       (Inr [Inr \<lparr>ColumnName = ''id'', ColumnDefault = Some ''0'', IsNullable = ''false'',
                   DataType = ''int'', CharMaxLength = None, NumPrecision = Some 10,
                   NumScale = Some 0, DateTimePrec = None\<rparr>,
             Inr \<lparr>ColumnName = ''name'', ColumnDefault = Some ''abc'', IsNullable = ''true'',
                   DataType = ''varchar'', CharMaxLength = Some 10, NumPrecision = None,
                   NumScale = None, DateTimePrec = None\<rparr>])
       (Inr [(''PRIMARY'', ''id'', ''1'')])
     = Inr (''CREATE OR REPLACE TABLE t (\<newline>''
            @ ''    id INT NOT NULL DEFAULT '' @ sq @ ''0'' @ sq @ '',\<newline>''
            @ ''    name VARCHAR(10) DEFAULT '' @ sq @ sq @ ''abc'' @ sq @ sq @ '',\<newline>''
            @ ''    PRIMARY KEY (id)\<newline>)'')"
    by (simp add: GenCreateSchema_def column_row_def column_type_query_def column_suffix_def
        GetDefaultValueString_def up n10 sq_def)
qed

section \<open>Properties of the merge statement\<close>

lemma no_pk_onStat: "pkColumn tableDef = [] \<Longrightarrow> onStat tableDef = []"
  by (simp add: pkColumn_def onStat_def)

text \<open>
  Claim C3, as stated: a table definition with no primary-key column is rejected with an
  error. It fails: \<open>GenMergeInto\<close> returns a string and has no error result; for the table
  \<open>t\<close> with the single non-key column \<open>v\<close> it returns a merge statement whose partition
  list and whose \<open>ON\<close> condition are empty.
\<close>

theorem GenMergeInto_no_pk_counterexample:
  "pkColumn \<lparr>Table = ''t'', Schema = ''s'', Type = ActionOther 0,
             Columns = [\<lparr>Name = ''v'', Tp = ''int'', Default = None, Precision = ''11'',
                         Scale = ''0'', Nullable = ''true'', IsPK = ''false''\<rparr>]\<rparr> = []
   \<and> GenMergeInto \<lparr>Table = ''t'', Schema = ''s'', Type = ActionOther 0,
             Columns = [\<lparr>Name = ''v'', Tp = ''int'', Default = None, Precision = ''11'',
                         Scale = ''0'', Nullable = ''true'', IsPK = ''false''\<rparr>]\<rparr>
         ''f.csv'' ''stg''
     = ''MERGE INTO t AS T USING''
       @ nl2 @ ''(''
       @ nl3 @ ''SELECT''
       @ nl3 @ tab @ ''$1 AS '' @ dq @ ''METADATA$FLAG'' @ dq @ '',\<newline>$5 AS v''
       @ nl3 @ ''FROM '' @ sq @ ''@stg/f.csv'' @ sq
       @ nl3 @ ''QUALIFY row_number() over (partition by  order by $4 desc) = 1''
       @ nl2 @ '') AS S''
       @ nl2 @ ''ON''
       @ nl2 @ ''(''
       @ nl3
       @ nl2 @ '')''
       @ nl2 @ ''WHEN MATCHED AND S.METADATA$FLAG != '' @ sq @ ''D'' @ sq
             @ '' THEN UPDATE SET v = S.v''
       @ nl2 @ ''WHEN MATCHED AND S.METADATA$FLAG = '' @ sq @ ''D'' @ sq @ '' THEN DELETE''
       @ nl2 @ ''WHEN NOT MATCHED AND S.METADATA$FLAG != '' @ sq @ ''D'' @ sq
             @ '' THEN INSERT (v) VALUES (S.v);''"
proof -
  have n5: "show_nat 5 = ''5''"
    by code_simp
  show ?thesis
    by (simp add: GenMergeInto_def pkColumn_def onStat_def selectStat_def updateStat_def
        insertStat_def valuesStat_def n5)
qed

text \<open>
  Claim C3, amended: for every table definition with no primary-key column,
  \<open>GenMergeInto\<close> returns a merge statement all the same, with an empty partition list after
  \<open>partition by\<close> and an empty \<open>ON\<close> condition; no error is reported.
\<close>

theorem GenMergeInto_no_pk_statement:
  "pkColumn tableDef = [] \<Longrightarrow>
   GenMergeInto tableDef filePath stageName =
     ''MERGE INTO '' @ Table tableDef @ '' AS T USING''
     @ nl2 @ ''(''
     @ nl3 @ ''SELECT''
     @ nl3 @ tab @ Join (selectStat tableDef) '',\<newline>''
     @ nl3 @ ''FROM '' @ sq @ ''@'' @ stageName @ ''/'' @ filePath @ sq
     @ nl3 @ ''QUALIFY row_number() over (partition by  order by $4 desc) = 1''
     @ nl2 @ '') AS S''
     @ nl2 @ ''ON''
     @ nl2 @ ''(''
     @ nl3
     @ nl2 @ '')''
     @ nl2 @ ''WHEN MATCHED AND S.METADATA$FLAG != '' @ sq @ ''D'' @ sq @ '' THEN UPDATE SET ''
           @ Join (updateStat tableDef) '', ''
     @ nl2 @ ''WHEN MATCHED AND S.METADATA$FLAG = '' @ sq @ ''D'' @ sq @ '' THEN DELETE''
     @ nl2 @ ''WHEN NOT MATCHED AND S.METADATA$FLAG != '' @ sq @ ''D'' @ sq @ '' THEN INSERT (''
           @ Join (insertStat tableDef) '', '' @ '') VALUES (''
           @ Join (valuesStat tableDef) '', '' @ '');''"
  by (simp add: GenMergeInto_def no_pk_onStat)

theorem GenMergeInto_no_pk_statement_witness:
  "pkColumn \<lparr>Table = ''t'', Schema = ''s'', Type = ActionOther 0, Columns = []\<rparr> = []
   \<and> GenMergeInto \<lparr>Table = ''t'', Schema = ''s'', Type = ActionOther 0, Columns = []\<rparr>
         ''f.csv'' ''stg''
     = ''MERGE INTO t AS T USING''
       @ nl2 @ ''(''
       @ nl3 @ ''SELECT''
       @ nl3 @ tab @ ''$1 AS '' @ dq @ ''METADATA$FLAG'' @ dq
       @ nl3 @ ''FROM '' @ sq @ ''@stg/f.csv'' @ sq
       @ nl3 @ ''QUALIFY row_number() over (partition by  order by $4 desc) = 1''
       @ nl2 @ '') AS S''
       @ nl2 @ ''ON''
       @ nl2 @ ''(''
       @ nl3
       @ nl2 @ '')''
       @ nl2 @ ''WHEN MATCHED AND S.METADATA$FLAG != '' @ sq @ ''D'' @ sq @ '' THEN UPDATE SET ''
       @ nl2 @ ''WHEN MATCHED AND S.METADATA$FLAG = '' @ sq @ ''D'' @ sq @ '' THEN DELETE''
       @ nl2 @ ''WHEN NOT MATCHED AND S.METADATA$FLAG != '' @ sq @ ''D'' @ sq
             @ '' THEN INSERT () VALUES ();''"
  using GenMergeInto_no_pk_statement
    [of "\<lparr>Table = ''t'', Schema = ''s'', Type = ActionOther 0, Columns = []\<rparr>" "''f.csv''" "''stg''"]
  by (simp add: pkColumn_def selectStat_def updateStat_def insertStat_def valuesStat_def)

section \<open>Properties of the snapshot load\<close>

lemma load_loop_calls:
  "load_loop ex genLoad tbl stg n snaps = (calls, r) \<Longrightarrow> list_all is_load calls"
  by (induction snaps arbitrary: n calls r) (auto simp: Let_def split: option.splits prod.splits)

lemma load_loop_no_drop:
  "load_loop ex genLoad tbl stg n snaps = (calls, r) \<Longrightarrow> \<not> list_ex is_drop calls"
  by (induction snaps arbitrary: n calls r) (auto simp: Let_def split: option.splits prod.splits)

lemma load_loop_fails:
  "i < length snaps \<Longrightarrow> ex (n + i) (genLoad tbl stg (snaps ! i)) = Some e \<Longrightarrow>
   (\<And>j. j < i \<Longrightarrow> ex (n + j) (genLoad tbl stg (snaps ! j)) = None) \<Longrightarrow>
   load_loop ex genLoad tbl stg n snaps =
     (map (\<lambda>d. CallExec (genLoad tbl stg d)) (take (Suc i) snaps), Some e)"
proof (induction snaps arbitrary: n i)
  case Nil
  then show ?case by simp
next
  case (Cons d ds)
  show ?case
  proof (cases i)
    case 0
    with Cons.prems show ?thesis by (simp add: Let_def)
  next
    case (Suc k)
    have h0: "ex n (genLoad tbl stg d) = None"
      using Cons.prems(3)[of 0] Suc by simp
    have "load_loop ex genLoad tbl stg (Suc n) ds =
            (map (\<lambda>d. CallExec (genLoad tbl stg d)) (take (Suc k) ds), Some e)"
    proof (rule Cons.IH)
      show "k < length ds" using Cons.prems(1) Suc by simp
      show "ex (Suc n + k) (genLoad tbl stg (ds ! k)) = Some e"
        using Cons.prems(2) Suc by simp
      fix j assume "j < k"
      then show "ex (Suc n + j) (genLoad tbl stg (ds ! j)) = None"
        using Cons.prems(3)[of "Suc j"] Suc by simp
    qed
    with h0 Suc show ?thesis by (simp add: Let_def)
  qed
qed

lemma load_loop_succeeds:
  "load_loop ex genLoad tbl stg n snaps = (calls, None) \<Longrightarrow>
   calls = map (\<lambda>d. CallExec (genLoad tbl stg d)) snaps \<and>
   (\<forall>i < length snaps. ex (n + i) (genLoad tbl stg (snaps ! i)) = None)"
proof (induction snaps arbitrary: n calls)
  case Nil
  then show ?case by simp
next
  case (Cons d ds)
  from Cons.prems obtain cs where
    h0: "ex n (genLoad tbl stg d) = None" and
    rec: "load_loop ex genLoad tbl stg (Suc n) ds = (cs, None)" and
    calls: "calls = CallExec (genLoad tbl stg d) # cs"
    by (auto simp: Let_def split: option.splits prod.splits)
  from Cons.IH[OF rec] have
    cs: "cs = map (\<lambda>d. CallExec (genLoad tbl stg d)) ds" and
    ok: "\<forall>i < length ds. ex (Suc n + i) (genLoad tbl stg (ds ! i)) = None"
    by auto
  have "ex (n + i) (genLoad tbl stg ((d # ds) ! i)) = None" if "i < length (d # ds)" for i
    using that h0 ok by (cases i) auto
  with cs calls show ?case by simp
qed

lemma load_reaches_loop:
  "create_stage_result w = None \<Longrightarrow> parse_result w = Inr (host, path) \<Longrightarrow>
   list_result w = Inr keys \<Longrightarrow> keys \<noteq> [] \<Longrightarrow>
   loadSnapshotDataIntoSnowflake genLoad sess w =
     (case load_loop (exec_result w) genLoad (SourceTable sess) (stage_of sess) 0
             (parts_of sess path keys) of
        (calls, Some e) \<Rightarrow>
          (CallCreateExternalStage (stage_of sess) (StorageWorkspacePath sess) # calls, Some e)
      | (calls, None) \<Rightarrow>
          (CallCreateExternalStage (stage_of sess) (StorageWorkspacePath sess) # calls
             @ [CallDropStage (stage_of sess)],
           drop_stage_result w))"
  by (simp add: loadSnapshotDataIntoSnowflake_def stage_of_def parts_of_def Let_def
      split: prod.splits option.splits)

lemma load_fails_at:
  assumes "create_stage_result w = None" and "parse_result w = Inr (host, path)"
    and "list_result w = Inr keys" and "keys \<noteq> []"
    and "i < length (parts_of sess path keys)"
    and "exec_result w i (load_stmt genLoad sess (parts_of sess path keys ! i)) = Some e"
    and "\<forall>j < i. exec_result w j (load_stmt genLoad sess (parts_of sess path keys ! j)) = None"
  shows "loadSnapshotDataIntoSnowflake genLoad sess w =
     (CallCreateExternalStage (stage_of sess) (StorageWorkspacePath sess)
        # map (\<lambda>d. CallExec (load_stmt genLoad sess d)) (take (Suc i) (parts_of sess path keys)),
      Some e)"
proof -
  have "load_loop (exec_result w) genLoad (SourceTable sess) (stage_of sess) 0
          (parts_of sess path keys) =
        (map (\<lambda>d. CallExec (genLoad (SourceTable sess) (stage_of sess) d))
           (take (Suc i) (parts_of sess path keys)), Some e)"
    using assms(5-7) by (intro load_loop_fails) (simp_all add: load_stmt_def)
  then show ?thesis
    using load_reaches_loop[OF assms(1-4), of genLoad sess] by (simp add: load_stmt_def)
qed

lemma drop_only_after_all_loads:
  assumes "list_ex is_drop (fst (loadSnapshotDataIntoSnowflake genLoad sess w))"
  shows "\<exists>host path keys.
           create_stage_result w = None \<and> parse_result w = Inr (host, path) \<and>
           list_result w = Inr keys \<and>
           (\<forall>i < length (parts_of sess path keys).
              exec_result w i (load_stmt genLoad sess (parts_of sess path keys ! i)) = None) \<and>
           fst (loadSnapshotDataIntoSnowflake genLoad sess w) =
             CallCreateExternalStage (stage_of sess) (StorageWorkspacePath sess)
               # map (\<lambda>d. CallExec (load_stmt genLoad sess d)) (parts_of sess path keys)
               @ [CallDropStage (stage_of sess)]"
proof -
  from assms have c: "create_stage_result w = None"
    by (auto simp: loadSnapshotDataIntoSnowflake_def Let_def split: option.splits)
  from assms c obtain host path where p: "parse_result w = Inr (host, path)"
    by (cases "parse_result w") (auto simp: loadSnapshotDataIntoSnowflake_def Let_def)
  from assms c p obtain keys where l: "list_result w = Inr keys"
    by (cases "list_result w") (auto simp: loadSnapshotDataIntoSnowflake_def Let_def)
  from assms c p l have k: "keys \<noteq> []"
    by (auto simp: loadSnapshotDataIntoSnowflake_def Let_def)
  obtain calls r where
    ll: "load_loop (exec_result w) genLoad (SourceTable sess) (stage_of sess) 0
           (parts_of sess path keys) = (calls, r)"
    by (cases "load_loop (exec_result w) genLoad (SourceTable sess) (stage_of sess) 0
           (parts_of sess path keys)") auto
  have nd: "\<not> list_ex is_drop calls"
    using load_loop_no_drop[OF ll] .
  have r: "r = None"
  proof (cases r)
    case None
    then show ?thesis .
  next
    case (Some e)
    with assms nd ll show ?thesis
      by (simp add: load_reaches_loop[OF c p l k])
  qed
  from load_loop_succeeds[OF ll[unfolded r]] ll r
  show ?thesis
    using c p l by (simp add: load_reaches_loop[OF c p l k] load_stmt_def)
qed

text \<open>
  Claim C10. When the load statement of a part fails (the parts before it having loaded),
  \<open>loadSnapshotDataIntoSnowflake\<close> returns that error at once: its calls are the creation of
  the stage and the load statements up to the failing one, and \<open>DropStage\<close> is not among
  them. Conversely, whenever \<open>DropStage\<close> is among the calls, every listed part has loaded
  without error.
\<close>

theorem load_failure_returns_without_drop:
  "(create_stage_result w = None \<and> parse_result w = Inr (host, path) \<and>
    list_result w = Inr keys \<and> keys \<noteq> [] \<and> i < length (parts_of sess path keys) \<and>
    exec_result w i (load_stmt genLoad sess (parts_of sess path keys ! i)) = Some e \<and>
    (\<forall>j < i. exec_result w j (load_stmt genLoad sess (parts_of sess path keys ! j)) = None)
    \<longrightarrow>
      loadSnapshotDataIntoSnowflake genLoad sess w =
        (CallCreateExternalStage (stage_of sess) (StorageWorkspacePath sess)
           # map (\<lambda>d. CallExec (load_stmt genLoad sess d))
               (take (Suc i) (parts_of sess path keys)),
         Some e)
      \<and> \<not> list_ex is_drop (fst (loadSnapshotDataIntoSnowflake genLoad sess w)))
   \<and> (list_ex is_drop (fst (loadSnapshotDataIntoSnowflake genLoad sess w)) \<longrightarrow>
        (\<exists>host path keys.
           parse_result w = Inr (host, path) \<and> list_result w = Inr keys \<and>
           (\<forall>i < length (parts_of sess path keys).
              exec_result w i (load_stmt genLoad sess (parts_of sess path keys ! i)) = None)))"
proof (intro conjI impI)
  assume a: "create_stage_result w = None \<and> parse_result w = Inr (host, path) \<and>
    list_result w = Inr keys \<and> keys \<noteq> [] \<and> i < length (parts_of sess path keys) \<and>
    exec_result w i (load_stmt genLoad sess (parts_of sess path keys ! i)) = Some e \<and>
    (\<forall>j < i. exec_result w j (load_stmt genLoad sess (parts_of sess path keys ! j)) = None)"
  then have eq: "loadSnapshotDataIntoSnowflake genLoad sess w =
        (CallCreateExternalStage (stage_of sess) (StorageWorkspacePath sess)
           # map (\<lambda>d. CallExec (load_stmt genLoad sess d))
               (take (Suc i) (parts_of sess path keys)),
         Some e)"
    by (intro load_fails_at) auto
  then show "loadSnapshotDataIntoSnowflake genLoad sess w =
        (CallCreateExternalStage (stage_of sess) (StorageWorkspacePath sess)
           # map (\<lambda>d. CallExec (load_stmt genLoad sess d))
               (take (Suc i) (parts_of sess path keys)),
         Some e)" .
  show "\<not> list_ex is_drop (fst (loadSnapshotDataIntoSnowflake genLoad sess w))"
    by (simp add: eq list_ex_iff)
next
  assume "list_ex is_drop (fst (loadSnapshotDataIntoSnowflake genLoad sess w))"
  from drop_only_after_all_loads[OF this]
  show "\<exists>host path keys.
           parse_result w = Inr (host, path) \<and> list_result w = Inr keys \<and>
           (\<forall>i < length (parts_of sess path keys).
              exec_result w i (load_stmt genLoad sess (parts_of sess path keys ! i)) = None)"
    by blast
qed

theorem load_failure_returns_without_drop_witness:
  "parts_of \<lparr>SourceDatabase = ''db'', SourceTable = ''t'', StorageWorkspacePath = ''s3://b/ws''\<rparr>
     ''/ws'' [''ws/snapshot/db.t.0.csv'', ''ws/snapshot/db.t.1.csv'', ''ws/snapshot/metadata'']
     = [''/snapshot/db.t.0.csv'', ''/snapshot/db.t.1.csv'']
   \<and> loadSnapshotDataIntoSnowflake (\<lambda>tbl stg part. ''COPY INTO '' @ tbl @ '' FROM @'' @ stg @ part)
       \<lparr>SourceDatabase = ''db'', SourceTable = ''t'', StorageWorkspacePath = ''s3://b/ws''\<rparr>
       \<lparr>create_stage_result = None, parse_result = Inr (''b'', ''/ws''),
        list_result = Inr [''ws/snapshot/db.t.0.csv'', ''ws/snapshot/db.t.1.csv'',
                           ''ws/snapshot/metadata''],
        exec_result = (\<lambda>n sql. if n = 1 then Some (Err ''load failed'') else None),
        drop_stage_result = None\<rparr>
     = ([CallCreateExternalStage ''snapshot_stage_t'' ''s3://b/ws'',
         CallExec ''COPY INTO t FROM @snapshot_stage_t/snapshot/db.t.0.csv'',
         CallExec ''COPY INTO t FROM @snapshot_stage_t/snapshot/db.t.1.csv''],
        Some (Err ''load failed''))
   \<and> list_ex is_drop (fst (loadSnapshotDataIntoSnowflake
         (\<lambda>tbl stg part. ''COPY INTO '' @ tbl @ '' FROM @'' @ stg @ part)
         \<lparr>SourceDatabase = ''db'', SourceTable = ''t'', StorageWorkspacePath = ''s3://b/ws''\<rparr>
         \<lparr>create_stage_result = None, parse_result = Inr (''b'', ''/ws''),
          list_result = Inr [''ws/snapshot/db.t.0.csv'', ''ws/snapshot/db.t.1.csv'',
                             ''ws/snapshot/metadata''],
          exec_result = (\<lambda>n sql. None),
          drop_stage_result = None\<rparr>))"
proof -
  let ?sess = "\<lparr>SourceDatabase = ''db'', SourceTable = ''t'', StorageWorkspacePath = ''s3://b/ws''\<rparr>"
  let ?keys = "[''ws/snapshot/db.t.0.csv'', ''ws/snapshot/db.t.1.csv'', ''ws/snapshot/metadata'']"
  let ?gen = "\<lambda>tbl stg part. ''COPY INTO '' @ tbl @ '' FROM @'' @ stg @ part"
  let ?w = "\<lparr>create_stage_result = None, parse_result = Inr (''b'', ''/ws''),
        list_result = Inr ?keys,
        exec_result = (\<lambda>n sql. if n = 1 then Some (Err ''load failed'') else None),
        drop_stage_result = None\<rparr>"
  let ?w' = "\<lparr>create_stage_result = None, parse_result = Inr (''b'', ''/ws''),
        list_result = Inr ?keys, exec_result = (\<lambda>n sql. None), drop_stage_result = None\<rparr>"
  have parts: "parts_of ?sess ''/ws'' ?keys = [''/snapshot/db.t.0.csv'', ''/snapshot/db.t.1.csv'']"
    by (simp add: parts_of_def dumpedSnapshots_def TrimPrefix_def HasPrefix_def HasSuffix_def)
  have drop: "list_ex is_drop (fst (loadSnapshotDataIntoSnowflake ?gen ?sess ?w'))"
    by (simp add: load_reaches_loop[of ?w' "''b''" "''/ws''" ?keys] parts stage_of_def)
  have lt: "\<forall>j<1. exec_result ?w j (load_stmt ?gen ?sess (parts_of ?sess ''/ws'' ?keys ! j)) = None"
    by simp
  show ?thesis
    using load_failure_returns_without_drop
      [of ?w "''b''" "''/ws''" ?keys 1 ?sess ?gen "Err ''load failed''"]
      load_failure_returns_without_drop [of ?w' _ _ _ _ ?sess ?gen]
      parts drop lt
    by (simp add: stage_of_def load_stmt_def)
qed

text \<open>
  Claim C4. When no listed object matches the naming convention of the parts, the load is to
  fail with a "no files found" error. The function tests the listing before it filters it:
  with the single listed object \<open>ws/snapshot/metadata\<close>, which is no part, it loads
  nothing, drops the stage and returns no error.
\<close>

theorem no_matching_part_returns_success:
  "parts_of \<lparr>SourceDatabase = ''db'', SourceTable = ''t'', StorageWorkspacePath = ''s3://b/ws''\<rparr>
     ''/ws'' [''ws/snapshot/metadata''] = []
   \<and> loadSnapshotDataIntoSnowflake genLoad
       \<lparr>SourceDatabase = ''db'', SourceTable = ''t'', StorageWorkspacePath = ''s3://b/ws''\<rparr>
       \<lparr>create_stage_result = None, parse_result = Inr (''b'', ''/ws''),
        list_result = Inr [''ws/snapshot/metadata''],
        exec_result = ex, drop_stage_result = None\<rparr>
     = ([CallCreateExternalStage ''snapshot_stage_t'' ''s3://b/ws'',
         CallDropStage ''snapshot_stage_t''], None)
   \<and> loadSnapshotDataIntoSnowflake genLoad
       \<lparr>SourceDatabase = ''db'', SourceTable = ''t'', StorageWorkspacePath = ''s3://b/ws''\<rparr>
       \<lparr>create_stage_result = None, parse_result = Inr (''b'', ''/ws''),
        list_result = Inr [],
        exec_result = ex, drop_stage_result = None\<rparr>
     = ([CallCreateExternalStage ''snapshot_stage_t'' ''s3://b/ws''],
        Some (Err ''No snapshot files found''))"
  by (simp add: loadSnapshotDataIntoSnowflake_def parts_of_def dumpedSnapshots_def
      TrimPrefix_def HasPrefix_def HasSuffix_def Let_def)

section \<open>Properties of the orchestrator\<close>











lemmas run_steps_defs =
  run_def get_start_tso_def create_changefeed_step_def and_then_def call_def
  split_table_step_def replicate_snapshot_step_def replicate_increment_step_def
  changefeed_StartTs_def ok_world_def



lemma changefeed_StartTs_id: "changefeed_StartTs t = t"
  by (simp add: changefeed_StartTs_def)

lemma later_steps:
  "list_all (later_event t)
     (fst (and_then (split_table_step c)
            (and_then (replicate_snapshot_step c w l t) (replicate_increment_step c w))))"
  by (auto simp: split_table_step_def replicate_snapshot_step_def replicate_increment_step_def
      and_then_def call_def later_event_def split: option.splits)

lemma cf_step_cases:
  "fst (create_changefeed_step c w l m t) = [] \<or>
   ((\<not> l \<or> \<not> m) \<and> fst (create_changefeed_step c w l m t) = [CreateChangefeed t])"
  by (auto simp: create_changefeed_step_def and_then_def call_def changefeed_StartTs_id
      split: option.splits)

lemma fst_and_then:
  "fst (and_then a b) = fst a \<or> fst (and_then a b) = fst a @ fst b"
  by (auto simp: and_then_def split: prod.splits option.splits)

lemma registered_anchor:
  assumes "CreateChangefeed t \<in> set (fst (run c w))"
  shows "(loadinfo_exists w = Inr False \<and> current_tso w = Inr t \<and>
          (\<exists>rest. fst (run c w) = GetCurrentTSO # CreateChangefeed t # rest \<and>
                  list_all (later_event t) rest))
       \<or> (loadinfo_exists w = Inr True \<and> t = 0 \<and> GetCurrentTSO \<notin> set (fst (run c w)))"
proof -
  from assms have s: "get_storage w = None"
    by (auto simp: run_def split: option.splits)
  from assms s obtain m where m: "metadata_exists w = Inr m"
    by (cases "metadata_exists w") (auto simp: run_def)
  from assms s m obtain l where l: "loadinfo_exists w = Inr l"
    by (cases "loadinfo_exists w") (auto simp: run_def)
  let ?later = "and_then (split_table_step c)
            (and_then (replicate_snapshot_step c w l (if l then 0 else t)) (replicate_increment_step c w))"
  show ?thesis
  proof (cases l)
    case True
    let ?cf = "create_changefeed_step c w True m 0"
    let ?lt = "and_then (split_table_step c)
            (and_then (replicate_snapshot_step c w True 0) (replicate_increment_step c w))"
    have r: "run c w = and_then ?cf ?lt"
      using s m l True by (simp add: run_def get_start_tso_def and_then_def split: prod.splits)
    have ev: "set (fst (run c w)) \<subseteq> set (fst ?cf) \<union> set (fst ?lt)"
      unfolding r using fst_and_then[of ?cf ?lt] by auto
    have "GetCurrentTSO \<notin> set (fst (run c w))"
      using ev cf_step_cases[of c w True m 0] later_steps[of 0 c w True]
      by (auto simp: list_all_iff later_event_def)
    moreover have "t = 0"
      using assms ev cf_step_cases[of c w True m 0] later_steps[of 0 c w True]
      by (auto simp: list_all_iff later_event_def)
    ultimately show ?thesis using l True by simp
  next
    case False
    from assms s m l False obtain t0 where t0: "current_tso w = Inr t0"
      by (cases "current_tso w") (auto simp: run_def get_start_tso_def)
    let ?cf = "create_changefeed_step c w False m t0"
    let ?lt = "and_then (split_table_step c)
            (and_then (replicate_snapshot_step c w False t0) (replicate_increment_step c w))"
    have r: "run c w = and_then ([GetCurrentTSO], None) (and_then ?cf ?lt)"
      using s m l False t0 by (simp add: run_def get_start_tso_def)
    then have r': "fst (run c w) = GetCurrentTSO # fst (and_then ?cf ?lt)"
      by (simp add: and_then_def split: prod.splits)
    have lt: "list_all (later_event t0) (fst ?lt)"
      by (rule later_steps)
    from assms r' have "CreateChangefeed t \<in> set (fst (and_then ?cf ?lt))"
      by simp
    with fst_and_then[of ?cf ?lt] lt have "CreateChangefeed t \<in> set (fst ?cf)"
      by (auto simp: list_all_iff later_event_def)
    with cf_step_cases[of c w False m t0] have cf: "fst ?cf = [CreateChangefeed t0]" and tt: "t = t0"
      by auto
    from fst_and_then[of ?cf ?lt] cf lt
    have "\<exists>rest. fst (and_then ?cf ?lt) = CreateChangefeed t0 # rest \<and> list_all (later_event t0) rest"
      by auto
    with r' tt t0 l False show ?thesis by auto
  qed
qed

text \<open>
  Claim C7, as stated: a registered capture job is anchored at a consistency point resolved
  in this run, before the Stage Manager or freshly when the snapshot is skipped. It fails
  when the \<open>snapshot/loadinfo\<close> marker is present and the \<open>increment/metadata\<close> marker is
  not: in full mode the job is registered with start 0, and no TSO is resolved although
  the source would answer 42.
\<close>

theorem changefeed_anchor_counterexample:
  "run \<lparr>mode = RunModeFull, sindURIStr = '''', tableFQN = ''db.t''\<rparr> (ok_world False True 42)
     = ([CreateChangefeed 0, StartReplicateIncrement], None)
   \<and> GetCurrentTSO \<notin> set (fst (run \<lparr>mode = RunModeFull, sindURIStr = '''', tableFQN = ''db.t''\<rparr>
                                  (ok_world False True 42)))
   \<and> current_tso (ok_world False True 42) = Inr 42
   \<and> (0 :: 64 word) \<noteq> 42"
  by (simp add: run_steps_defs)

text \<open>
  Claim C7, amended: whenever a changefeed is registered with start \<open>t\<close>, either the
  \<open>snapshot/loadinfo\<close> marker is absent, \<open>t\<close> is the TSO that \<open>GetCurrentTSO\<close> returned, and
  the run begins with resolving the TSO and registering the changefeed at it, before any
  snapshot replication, which is given the same TSO; or the marker is present, no TSO is
  resolved and the start is 0.
\<close>

theorem changefeed_anchor:
  "CreateChangefeed t \<in> set (fst (run c w)) \<longrightarrow>
     (loadinfo_exists w = Inr False \<and> current_tso w = Inr t \<and>
      (\<exists>rest. fst (run c w) = GetCurrentTSO # CreateChangefeed t # rest \<and>
              list_all (later_event t) rest))
     \<or> (loadinfo_exists w = Inr True \<and> t = 0 \<and> GetCurrentTSO \<notin> set (fst (run c w)))"
  using registered_anchor by blast

theorem changefeed_anchor_witness:
  "CreateChangefeed 42 \<in> set (fst (run \<lparr>mode = RunModeFull, sindURIStr = '''', tableFQN = ''db.t''\<rparr>
                                     (ok_world False False 42)))
   \<and> loadinfo_exists (ok_world False False 42) = Inr False
   \<and> current_tso (ok_world False False 42) = Inr 42
   \<and> fst (run \<lparr>mode = RunModeFull, sindURIStr = '''', tableFQN = ''db.t''\<rparr>
            (ok_world False False 42))
       = [GetCurrentTSO, CreateChangefeed 42, StartReplicateSnapshot ''42'',
          StartReplicateIncrement]"
proof -
  have n: "show_nat 42 = ''42''"
    by code_simp
  show ?thesis
    using changefeed_anchor
      [of 42 "\<lparr>mode = RunModeFull, sindURIStr = '''', tableFQN = ''db.t''\<rparr>"
          "ok_world False False 42"]
    by (simp add: run_steps_defs n)
qed

section \<open>Properties of the progress poller\<close>

lemma nil_callback_invariant:
  "(load_step True)\<^sup>*\<^sup>* load_init s \<Longrightarrow>
   (mpc s = MExec \<or> mpc s = MSend) \<and> (ppc s = PCheck \<or> ppc s = PDone)"
proof (induction rule: rtranclp_induct)
  case base
  then show ?case by (simp add: load_init_def)
next
  case (step s s')
  from step.hyps(2) step.IH show ?case
    by (cases rule: load_step.cases) auto
qed

lemma nil_callback_stuck:
  "\<not> load_step True \<lparr>mpc = MSend, ppc = PDone, late_polls = 0\<rparr> s'"
  by (auto elim: load_step.cases)

lemma nil_callback_reaches_stuck:
  "(load_step True)\<^sup>*\<^sup>* load_init \<lparr>mpc = MSend, ppc = PDone, late_polls = 0\<rparr>"
proof -
  have "load_step True load_init (load_init\<lparr>mpc := MSend\<rparr>)"
    by (rule load_step.exec_returns) (simp add: load_init_def)
  moreover have "load_step True (load_init\<lparr>mpc := MSend\<rparr>) (load_init\<lparr>mpc := MSend, ppc := PDone\<rparr>)"
    using load_step.callback_nil[of "load_init\<lparr>mpc := MSend\<rparr>" True]
    by (simp add: load_init_def)
  ultimately have "(load_step True)\<^sup>*\<^sup>* load_init (load_init\<lparr>mpc := MSend, ppc := PDone\<rparr>)"
    by (meson rtranclp.rtrancl_into_rtrancl rtranclp.rtrancl_refl)
  then show ?thesis
    by (simp add: load_init_def)
qed

lemma set_callback_returns:
  "(load_step False)\<^sup>*\<^sup>* load_init \<lparr>mpc = MReturned, ppc = PDone, late_polls = 0\<rparr>"
proof -
  let ?s1 = "\<lparr>mpc = MSend, ppc = PCheck, late_polls = 0\<rparr>"
  let ?s2 = "\<lparr>mpc = MSend, ppc = PSelect, late_polls = 0\<rparr>"
  let ?s3 = "\<lparr>mpc = MWait, ppc = PDone, late_polls = 0\<rparr>"
  let ?s4 = "\<lparr>mpc = MReturned, ppc = PDone, late_polls = 0\<rparr>"
  have 1: "load_step False load_init ?s1"
    using load_step.exec_returns[of load_init False] by (simp add: load_init_def)
  have 2: "load_step False ?s1 ?s2"
    using load_step.callback_set[of ?s1 False] by simp
  have 3: "load_step False ?s2 ?s3"
    using load_step.copy_finished[of ?s2 False] by simp
  have 4: "load_step False ?s3 ?s4"
    using load_step.wait_returns[of ?s3 False] by simp
  from 1 2 3 4 show ?thesis
    by (meson rtranclp.rtrancl_into_rtrancl rtranclp.rtrancl_refl)
qed

lemma set_callback_late_poll:
  "(load_step False)\<^sup>*\<^sup>* load_init \<lparr>mpc = MSend, ppc = PPoll, late_polls = 1\<rparr>"
proof -
  let ?s1 = "\<lparr>mpc = MSend, ppc = PCheck, late_polls = 0\<rparr>"
  let ?s2 = "\<lparr>mpc = MSend, ppc = PSelect, late_polls = 0\<rparr>"
  let ?s3 = "\<lparr>mpc = MSend, ppc = PPoll, late_polls = 1\<rparr>"
  have 1: "load_step False load_init ?s1"
    using load_step.exec_returns[of load_init False] by (simp add: load_init_def)
  have 2: "load_step False ?s1 ?s2"
    using load_step.callback_set[of ?s1 False] by simp
  have 3: "load_step False ?s2 ?s3"
    using load_step.tick[of ?s2 False] by simp
  from 1 2 3 show ?thesis
    by (meson rtranclp.rtrancl_into_rtrancl rtranclp.rtrancl_refl)
qed

text \<open>
  Claim C5. The poller is to be stopped when the load call returns, never to block the
  completion, and never to poll afterwards, also when the callback is nil. With a nil
  callback the goroutine returns at once, so nobody receives from \<open>copyFinished\<close>: the run
  reaches the state where the main goroutine is at its send and the goroutine is gone, no
  step is possible from there, and no run ever reaches the return of
  \<open>LoadSnapshotFromStage\<close>. With a callback the function can return, but a run exists in
  which a poll begins after \<open>db.ExecContext\<close> has returned.
\<close>

theorem nil_callback_never_returns:
  "\<not> (\<exists>s. (load_step True)\<^sup>*\<^sup>* load_init s \<and> mpc s = MReturned)
   \<and> (load_step True)\<^sup>*\<^sup>* load_init \<lparr>mpc = MSend, ppc = PDone, late_polls = 0\<rparr>
   \<and> \<not> (\<exists>s'. load_step True \<lparr>mpc = MSend, ppc = PDone, late_polls = 0\<rparr> s')
   \<and> (load_step False)\<^sup>*\<^sup>* load_init \<lparr>mpc = MReturned, ppc = PDone, late_polls = 0\<rparr>
   \<and> (load_step False)\<^sup>*\<^sup>* load_init \<lparr>mpc = MSend, ppc = PPoll, late_polls = 1\<rparr>"
proof (intro conjI)
  show "\<not> (\<exists>s. (load_step True)\<^sup>*\<^sup>* load_init s \<and> mpc s = MReturned)"
    using nil_callback_invariant by fastforce
  show "(load_step True)\<^sup>*\<^sup>* load_init \<lparr>mpc = MSend, ppc = PDone, late_polls = 0\<rparr>"
    by (rule nil_callback_reaches_stuck)
  show "\<not> (\<exists>s'. load_step True \<lparr>mpc = MSend, ppc = PDone, late_polls = 0\<rparr> s')"
    using nil_callback_stuck by blast
  show "(load_step False)\<^sup>*\<^sup>* load_init \<lparr>mpc = MReturned, ppc = PDone, late_polls = 0\<rparr>"
    by (rule set_callback_returns)
  show "(load_step False)\<^sup>*\<^sup>* load_init \<lparr>mpc = MSend, ppc = PPoll, late_polls = 1\<rparr>"
    by (rule set_callback_late_poll)
qed

section \<open>What the merge statement does to a table\<close>

lemma GenMergeInto_render:
  "GenMergeInto tableDef filePath stageName =
   render_merge (merge_stmt_of tableDef filePath stageName)"
  by (simp add: GenMergeInto_def render_merge_def merge_stmt_of_def render_when_def
      onStat_def pkColumn_def updateStat_def insertStat_def valuesStat_def comp_def)

lemma row_matches_pk:
  "row_matches (on_equal (merge_stmt_of tableDef filePath stageName)) t s =
   (\<forall>c \<in> set (pkColumn tableDef). t c = payload s c \<and> t c \<noteq> None)"
  by (simp add: row_matches_def merge_stmt_of_def list_all_iff)

lemma outcome_matched_update:
  "flag s \<noteq> ''D'' \<Longrightarrow>
   row_outcome (merge_stmt_of tableDef filePath stageName) (Some t) s =
     Updated (\<lambda>c. if c \<in> set (insertStat tableDef) then payload s c else t c)"
  by (simp add: row_outcome_def merge_stmt_of_def clause_fires_def)

lemma outcome_matched_delete:
  "flag s = ''D'' \<Longrightarrow>
   row_outcome (merge_stmt_of tableDef filePath stageName) (Some t) s = Deleted"
  by (simp add: row_outcome_def merge_stmt_of_def clause_fires_def)

lemma outcome_unmatched_insert:
  "flag s \<noteq> ''D'' \<Longrightarrow>
   row_outcome (merge_stmt_of tableDef filePath stageName) None s =
     Inserted (\<lambda>c. if c \<in> set (insertStat tableDef) then payload s c else None)"
  by (simp add: row_outcome_def merge_stmt_of_def clause_fires_def)

lemma outcome_unmatched_delete:
  "flag s = ''D'' \<Longrightarrow>
   row_outcome (merge_stmt_of tableDef filePath stageName) None s = Untouched"
  by (simp add: row_outcome_def merge_stmt_of_def clause_fires_def)


lemma update_keeps_other_columns:
  assumes m: "\<forall>c \<in> set (pkColumn tableDef). t c = payload s c \<and> t c \<noteq> None"
    and c: "c \<notin> Name ` {col \<in> set (Columns tableDef). IsPK col \<noteq> ''true''}"
  shows "(if c \<in> set (insertStat tableDef) then payload s c else t c) = t c"
proof (cases "c \<in> set (insertStat tableDef)")
  case True
  then obtain col where col: "col \<in> set (Columns tableDef)" "Name col = c"
    by (auto simp: insertStat_def)
  with c have "IsPK col = ''true''" by auto
  with col have "c \<in> set (pkColumn tableDef)" by (auto simp: pkColumn_def)
  with m True show ?thesis by simp
next
  case False
  then show ?thesis by simp
qed

text \<open>
  Claim C1. For a table definition with at least one primary-key column, the statement of
  \<open>GenMergeInto\<close> is the rendering of a merge whose \<open>ON\<close> condition is equality on the
  primary-key columns and whose clauses do the following to a change row \<open>s\<close>. Matched with
  a target row \<open>t\<close> and flag not \<open>D\<close>: \<open>t\<close> is updated, every non-key column takes the value
  of \<open>s\<close>, and when \<open>t\<close> and \<open>s\<close> agree on the key no other column changes. Matched and
  flag \<open>D\<close>: \<open>t\<close> is deleted. Not matched and flag not \<open>D\<close>: a row is inserted with every
  column of the table from \<open>s\<close>. Not matched and flag \<open>D\<close>: nothing is done.
\<close>

theorem GenMergeInto_four_rules:
  "pkColumn tableDef \<noteq> [] \<longrightarrow>
     GenMergeInto tableDef filePath stageName =
       render_merge (merge_stmt_of tableDef filePath stageName)
     \<and> row_matches (on_equal (merge_stmt_of tableDef filePath stageName)) t s =
         (\<forall>c \<in> set (pkColumn tableDef). t c = payload s c \<and> t c \<noteq> None)
     \<and> (flag s \<noteq> ''D'' \<longrightarrow>
          (\<exists>t'. row_outcome (merge_stmt_of tableDef filePath stageName) (Some t) s = Updated t'
             \<and> (\<forall>col \<in> set (Columns tableDef).
                   IsPK col \<noteq> ''true'' \<longrightarrow> t' (Name col) = payload s (Name col))
             \<and> (row_matches (on_equal (merge_stmt_of tableDef filePath stageName)) t s \<longrightarrow>
                  (\<forall>c. c \<notin> Name ` {col \<in> set (Columns tableDef). IsPK col \<noteq> ''true''} \<longrightarrow>
                         t' c = t c))))
     \<and> (flag s = ''D'' \<longrightarrow>
          row_outcome (merge_stmt_of tableDef filePath stageName) (Some t) s = Deleted)
     \<and> (flag s \<noteq> ''D'' \<longrightarrow>
          (\<exists>r. row_outcome (merge_stmt_of tableDef filePath stageName) None s = Inserted r
             \<and> (\<forall>col \<in> set (Columns tableDef). r (Name col) = payload s (Name col))))
     \<and> (flag s = ''D'' \<longrightarrow>
          row_outcome (merge_stmt_of tableDef filePath stageName) None s = Untouched)"
proof (intro impI conjI)
  show "GenMergeInto tableDef filePath stageName =
       render_merge (merge_stmt_of tableDef filePath stageName)"
    by (rule GenMergeInto_render)
  show "row_matches (on_equal (merge_stmt_of tableDef filePath stageName)) t s =
         (\<forall>c \<in> set (pkColumn tableDef). t c = payload s c \<and> t c \<noteq> None)"
    by (rule row_matches_pk)
next
  assume f: "flag s \<noteq> ''D''"
  let ?t' = "\<lambda>c. if c \<in> set (insertStat tableDef) then payload s c else t c"
  have "row_outcome (merge_stmt_of tableDef filePath stageName) (Some t) s = Updated ?t'"
    using f by (rule outcome_matched_update)
  moreover have "\<forall>col \<in> set (Columns tableDef).
                   IsPK col \<noteq> ''true'' \<longrightarrow> ?t' (Name col) = payload s (Name col)"
    by (simp add: insertStat_def)
  moreover have "row_matches (on_equal (merge_stmt_of tableDef filePath stageName)) t s \<longrightarrow>
                  (\<forall>c. c \<notin> Name ` {col \<in> set (Columns tableDef). IsPK col \<noteq> ''true''} \<longrightarrow>
                         ?t' c = t c)"
    using update_keeps_other_columns[of tableDef t s] unfolding row_matches_pk by blast
  ultimately show "\<exists>t'. row_outcome (merge_stmt_of tableDef filePath stageName) (Some t) s = Updated t'
             \<and> (\<forall>col \<in> set (Columns tableDef).
                   IsPK col \<noteq> ''true'' \<longrightarrow> t' (Name col) = payload s (Name col))
             \<and> (row_matches (on_equal (merge_stmt_of tableDef filePath stageName)) t s \<longrightarrow>
                  (\<forall>c. c \<notin> Name ` {col \<in> set (Columns tableDef). IsPK col \<noteq> ''true''} \<longrightarrow>
                         t' c = t c))"
    by blast
next
  assume "flag s = ''D''"
  then show "row_outcome (merge_stmt_of tableDef filePath stageName) (Some t) s = Deleted"
    by (rule outcome_matched_delete)
next
  assume f: "flag s \<noteq> ''D''"
  let ?r = "\<lambda>c. if c \<in> set (insertStat tableDef) then payload s c else None"
  have "row_outcome (merge_stmt_of tableDef filePath stageName) None s = Inserted ?r"
    using f by (rule outcome_unmatched_insert)
  moreover have "\<forall>col \<in> set (Columns tableDef). ?r (Name col) = payload s (Name col)"
    by (simp add: insertStat_def)
  ultimately show "\<exists>r. row_outcome (merge_stmt_of tableDef filePath stageName) None s = Inserted r
             \<and> (\<forall>col \<in> set (Columns tableDef). r (Name col) = payload s (Name col))"
    by blast
next
  assume "flag s = ''D''"
  then show "row_outcome (merge_stmt_of tableDef filePath stageName) None s = Untouched"
    by (rule outcome_unmatched_delete)
qed

theorem GenMergeInto_four_rules_witness:
  "pkColumn scenario_table \<noteq> []
   \<and> GenMergeInto scenario_table ''f.csv'' ''stg''
     = ''MERGE INTO t AS T USING''
       @ nl2 @ ''(''
       @ nl3 @ ''SELECT''
       @ nl3 @ tab @ ''$1 AS '' @ dq @ ''METADATA$FLAG'' @ dq @ '',\<newline>$5 AS id,\<newline>$6 AS name''
       @ nl3 @ ''FROM '' @ sq @ ''@stg/f.csv'' @ sq
       @ nl3 @ ''QUALIFY row_number() over (partition by id order by $4 desc) = 1''
       @ nl2 @ '') AS S''
       @ nl2 @ ''ON''
       @ nl2 @ ''(''
       @ nl3 @ ''T.id = S.id''
       @ nl2 @ '')''
       @ nl2 @ ''WHEN MATCHED AND S.METADATA$FLAG != '' @ sq @ ''D'' @ sq
             @ '' THEN UPDATE SET id = S.id, name = S.name''
       @ nl2 @ ''WHEN MATCHED AND S.METADATA$FLAG = '' @ sq @ ''D'' @ sq @ '' THEN DELETE''
       @ nl2 @ ''WHEN NOT MATCHED AND S.METADATA$FLAG != '' @ sq @ ''D'' @ sq
             @ '' THEN INSERT (id, name) VALUES (S.id, S.name);''
   \<and> row_matches (on_equal (merge_stmt_of scenario_table ''f.csv'' ''stg''))
       [''id'' \<mapsto> ''5'', ''name'' \<mapsto> ''z'']
       \<lparr>flag = ''U'', ordering_key = 2, payload = [''id'' \<mapsto> ''5'', ''name'' \<mapsto> ''b'']\<rparr>
   \<and> (case row_outcome (merge_stmt_of scenario_table ''f.csv'' ''stg'')
              (Some [''id'' \<mapsto> ''5'', ''name'' \<mapsto> ''z''])
              \<lparr>flag = ''U'', ordering_key = 2, payload = [''id'' \<mapsto> ''5'', ''name'' \<mapsto> ''b'']\<rparr> of
         Updated t' \<Rightarrow> t' ''name'' = Some ''b'' \<and> t' ''id'' = Some ''5''
       | Deleted \<Rightarrow> False | Inserted r \<Rightarrow> False | Untouched \<Rightarrow> False)
   \<and> row_outcome (merge_stmt_of scenario_table ''f.csv'' ''stg'')
        (Some [''id'' \<mapsto> ''5'', ''name'' \<mapsto> ''z''])
        \<lparr>flag = ''D'', ordering_key = 3, payload = [''id'' \<mapsto> ''5'']\<rparr> = Deleted
   \<and> (case row_outcome (merge_stmt_of scenario_table ''f.csv'' ''stg'') None
              \<lparr>flag = ''U'', ordering_key = 2, payload = [''id'' \<mapsto> ''5'', ''name'' \<mapsto> ''b'']\<rparr> of
         Inserted r \<Rightarrow> r ''name'' = Some ''b'' \<and> r ''id'' = Some ''5''
       | Deleted \<Rightarrow> False | Updated t' \<Rightarrow> False | Untouched \<Rightarrow> False)
   \<and> row_outcome (merge_stmt_of scenario_table ''f.csv'' ''stg'') None
        \<lparr>flag = ''D'', ordering_key = 3, payload = [''id'' \<mapsto> ''5'']\<rparr> = Untouched"
proof -
  have n5: "show_nat 5 = ''5''" and n6: "show_nat 6 = ''6''"
    by code_simp+
  have rendered: "render_merge (merge_stmt_of scenario_table ''f.csv'' ''stg'')
     = ''MERGE INTO t AS T USING''
       @ nl2 @ ''(''
       @ nl3 @ ''SELECT''
       @ nl3 @ tab @ ''$1 AS '' @ dq @ ''METADATA$FLAG'' @ dq @ '',\<newline>$5 AS id,\<newline>$6 AS name''
       @ nl3 @ ''FROM '' @ sq @ ''@stg/f.csv'' @ sq
       @ nl3 @ ''QUALIFY row_number() over (partition by id order by $4 desc) = 1''
       @ nl2 @ '') AS S''
       @ nl2 @ ''ON''
       @ nl2 @ ''(''
       @ nl3 @ ''T.id = S.id''
       @ nl2 @ '')''
       @ nl2 @ ''WHEN MATCHED AND S.METADATA$FLAG != '' @ sq @ ''D'' @ sq
             @ '' THEN UPDATE SET id = S.id, name = S.name''
       @ nl2 @ ''WHEN MATCHED AND S.METADATA$FLAG = '' @ sq @ ''D'' @ sq @ '' THEN DELETE''
       @ nl2 @ ''WHEN NOT MATCHED AND S.METADATA$FLAG != '' @ sq @ ''D'' @ sq
             @ '' THEN INSERT (id, name) VALUES (S.id, S.name);''"
    by (simp add: render_merge_def merge_stmt_of_def render_when_def scenario_table_def
        selectStat_def pkColumn_def insertStat_def n5 n6)
  have pk: "pkColumn scenario_table \<noteq> []"
    by (simp add: pkColumn_def scenario_table_def)
  let ?t = "[''id'' \<mapsto> ''5'', ''name'' \<mapsto> ''z'']"
  let ?u = "\<lparr>flag = ''U'', ordering_key = 2, payload = [''id'' \<mapsto> ''5'', ''name'' \<mapsto> ''b'']\<rparr>"
  let ?d = "\<lparr>flag = ''D'', ordering_key = 3, payload = [''id'' \<mapsto> ''5'']\<rparr>"
  let ?m = "merge_stmt_of scenario_table ''f.csv'' ''stg''"
  note u = mp[OF GenMergeInto_four_rules[of scenario_table "''f.csv''" "''stg''" ?t ?u] pk]
  note d = mp[OF GenMergeInto_four_rules[of scenario_table "''f.csv''" "''stg''" ?t ?d] pk]
  have name_col: "\<lparr>Name = ''name'', Tp = ''varchar'', Default = None, Precision = ''10'',
                  Scale = '''', Nullable = ''true'', IsPK = ''false''\<rparr> \<in> set (Columns scenario_table)"
    and id_col: "\<lparr>Name = ''id'', Tp = ''int'', Default = None, Precision = ''11'',
                  Scale = ''0'', Nullable = ''false'', IsPK = ''true''\<rparr> \<in> set (Columns scenario_table)"
    by (simp_all add: scenario_table_def)
  have id_key: "''id'' \<notin> Name ` {col \<in> set (Columns scenario_table). IsPK col \<noteq> ''true''}"
    by (auto simp: scenario_table_def)
  have a: "GenMergeInto scenario_table ''f.csv'' ''stg'' = render_merge ?m"
    using u by (rule conjunct1)
  have b: "row_matches (on_equal ?m) ?t ?u"
    by (simp add: row_matches_def merge_stmt_of_def pkColumn_def scenario_table_def)
  have fu: "flag ?u \<noteq> ''D''" and fd: "flag ?d = ''D''"
    by simp_all
  from mp[OF u[THEN conjunct2, THEN conjunct2, THEN conjunct1] fu] have "\<exists>t'. row_outcome ?m (Some ?t) ?u = Updated t'
             \<and> (\<forall>col \<in> set (Columns scenario_table).
                   IsPK col \<noteq> ''true'' \<longrightarrow> t' (Name col) = payload ?u (Name col))
             \<and> (row_matches (on_equal ?m) ?t ?u \<longrightarrow>
                  (\<forall>c. c \<notin> Name ` {col \<in> set (Columns scenario_table). IsPK col \<noteq> ''true''} \<longrightarrow>
                         t' c = ?t c))" .
  then obtain t' where t': "row_outcome ?m (Some ?t) ?u = Updated t'"
    and nonkey: "\<forall>col \<in> set (Columns scenario_table).
                   IsPK col \<noteq> ''true'' \<longrightarrow> t' (Name col) = payload ?u (Name col)"
    and others: "\<forall>c. c \<notin> Name ` {col \<in> set (Columns scenario_table). IsPK col \<noteq> ''true''} \<longrightarrow>
                         t' c = ?t c"
    using b by blast
  have "t' ''name'' = Some ''b''"
    using nonkey[rule_format, OF name_col] by simp
  moreover have "t' ''id'' = Some ''5''"
    using others[rule_format, OF id_key] by simp
  ultimately have c: "(case row_outcome ?m (Some ?t) ?u of
         Updated t' \<Rightarrow> t' ''name'' = Some ''b'' \<and> t' ''id'' = Some ''5''
       | Deleted \<Rightarrow> False | Inserted r \<Rightarrow> False | Untouched \<Rightarrow> False)"
    by (simp add: t')
  have e: "row_outcome ?m (Some ?t) ?d = Deleted"
    using mp[OF d[THEN conjunct2, THEN conjunct2, THEN conjunct2, THEN conjunct1] fd] .
  from mp[OF u[THEN conjunct2, THEN conjunct2, THEN conjunct2, THEN conjunct2, THEN conjunct1] fu]
  have "\<exists>r. row_outcome ?m None ?u = Inserted r
             \<and> (\<forall>col \<in> set (Columns scenario_table). r (Name col) = payload ?u (Name col))" .
  then obtain r where r: "row_outcome ?m None ?u = Inserted r"
    and cols: "\<forall>col \<in> set (Columns scenario_table). r (Name col) = payload ?u (Name col)"
    by blast
  have "r ''name'' = Some ''b''"
    using cols[rule_format, OF name_col] by simp
  moreover have "r ''id'' = Some ''5''"
    using cols[rule_format, OF id_col] by simp
  ultimately have f: "(case row_outcome ?m None ?u of
         Inserted r \<Rightarrow> r ''name'' = Some ''b'' \<and> r ''id'' = Some ''5''
       | Deleted \<Rightarrow> False | Updated t' \<Rightarrow> False | Untouched \<Rightarrow> False)"
    by (simp add: r)
  have g: "row_outcome ?m None ?d = Untouched"
    using mp[OF d[THEN conjunct2, THEN conjunct2, THEN conjunct2, THEN conjunct2, THEN conjunct2] fd] .
  from pk a[unfolded rendered] b c e f g show ?thesis
    by (intro conjI)
qed














lemma written_row_dom: "dom (written_row tableDef s) \<subseteq> set (insertStat tableDef)"
  by (auto simp: written_row_def split: if_splits)
















end
